theory Spec2Isabelle
  imports Complex_Main "HOL-Library.Sublist" "HOL-Library.Char_ord" "HOL-Library.List_Lexorder"
    "HOL-Library.Multiset"
begin

section \<open>Strings\<close>

text \<open>
  A JavaScript string is modelled as a list of characters. The program only ever
  inspects ASCII characters (hyphens, colons, digits, lower-case letters, white space);
  every other character is opaque to it. White space (\<open>\s\<close>, \<open>trim\<close>) is the ASCII
  white space.
\<close>

definition is_space :: "char \<Rightarrow> bool" where
  "is_space c = (c \<in> set [CHR '' '', CHR 0x09, CHR 0x0A, CHR 0x0B, CHR 0x0C, CHR 0x0D])"

definition is_digit :: "char \<Rightarrow> bool" where
  "is_digit c = (c \<in> set ''0123456789'')"

definition is_lower :: "char \<Rightarrow> bool" where
  "is_lower c = (c \<in> set ''abcdefghijklmnopqrstuvwxyz'')"

definition trim :: "string \<Rightarrow> string" where
  "trim s = rev (dropWhile is_space (rev (dropWhile is_space s)))"

definition startsWith :: "string \<Rightarrow> string \<Rightarrow> bool" where
  "startsWith s p = prefix p s"

definition endsWith :: "string \<Rightarrow> string \<Rightarrow> bool" where
  "endsWith s p = suffix p s"

text \<open>\<open>s.includes(p)\<close>: the pattern occurs at some position.\<close>

fun includes_str :: "string \<Rightarrow> string \<Rightarrow> bool" where
  "includes_str [] p = (p = [])"
| "includes_str (c # cs) p = (startsWith (c # cs) p \<or> includes_str cs p)"

text \<open>\<open>s.replace(/^p/, r)\<close> for a literal pattern \<open>p\<close> anchored at the start.\<close>

definition replace_prefix :: "string \<Rightarrow> string \<Rightarrow> string \<Rightarrow> string" where
  "replace_prefix p r s = (if startsWith s p then r @ drop (length p) s else s)"

text \<open>\<open>s.replace(/p$/, "")\<close> for a literal pattern \<open>p\<close> anchored at the end.\<close>

definition strip_suffix :: "string \<Rightarrow> string \<Rightarrow> string" where
  "strip_suffix p s = (if endsWith s p then take (length s - length p) s else s)"

text \<open>\<open>s.replace(p, r)\<close> for a string pattern: only the first occurrence is replaced.\<close>

fun replace_first :: "string \<Rightarrow> string \<Rightarrow> string \<Rightarrow> string" where
  "replace_first p r [] = (if p = [] then r else [])"
| "replace_first p r (c # cs) =
     (if startsWith (c # cs) p then r @ drop (length p) (c # cs)
      else c # replace_first p r cs)"

text \<open>\<open>s.split("\n")\<close>.\<close>

fun split_lines :: "string \<Rightarrow> string list" where
  "split_lines [] = [[]]"
| "split_lines (c # cs) =
     (if c = CHR 0x0A then [] # split_lines cs
      else (case split_lines cs of [] \<Rightarrow> [[c]] | l # ls \<Rightarrow> (c # l) # ls))"

section \<open>Objects and errors\<close>

text \<open>
  A plain object used as a table is an association list in insertion order: assigning
  to a key that is present replaces the value where the key stands, assigning to a new
  key appends it, and \<open>Object.entries\<close> is the list itself. The only exception the
  program can raise is a \<open>TypeError\<close> (a property read on \<open>undefined\<close> or
  \<open>null\<close>).
\<close>

type_synonym 'v obj = "(string \<times> 'v) list"

definition obj_get :: "'v obj \<Rightarrow> string \<Rightarrow> 'v option" where
  "obj_get obj k = map_of obj k"

fun obj_set :: "string \<Rightarrow> 'v \<Rightarrow> 'v obj \<Rightarrow> 'v obj" where
  "obj_set k v [] = [(k, v)]"
| "obj_set k v (kv # kvs) = (if fst kv = k then (k, v) # kvs else kv # obj_set k v kvs)"

definition obj_keys :: "'v obj \<Rightarrow> string list" where
  "obj_keys obj = map fst obj"

datatype error = TypeError

text \<open>A loop whose body may throw: the first exception ends it.\<close>

fun fold_err :: "('a \<Rightarrow> 's \<Rightarrow> error + 's) \<Rightarrow> 'a list \<Rightarrow> 's \<Rightarrow> error + 's" where
  "fold_err f [] s = Inr s"
| "fold_err f (x # xs) s = (case f x s of Inl e \<Rightarrow> Inl e | Inr s' \<Rightarrow> fold_err f xs s')"

section \<open>Declaration extractor\<close>

text \<open>
  \<open>parseVariables\<close> runs the global regular expression
  \<^verbatim>\<open>/--([^:]+):\s*([^;]+);/g\<close> over the text. \<open>match_decl\<close> is a match anchored at the
  head of its argument: the name is the longest run without a colon (the run must be
  followed by a colon, and backtracking to a shorter run cannot help), the body is the
  longest run without a semicolon. The second group is the body without its leading
  white space, or the last white-space character when the body is white space only
  (\<^verbatim>\<open>\s*\<close> gives one character back). The result holds both groups and the text
  after the match.
\<close>

definition match_decl :: "string \<Rightarrow> (string \<times> string \<times> string) option" where
  "match_decl s =
     (if startsWith s ''--'' then
        let s1 = drop 2 s;
            name = takeWhile (\<lambda>c. c \<noteq> CHR '':'') s1;
            s2 = dropWhile (\<lambda>c. c \<noteq> CHR '':'') s1
        in if name = [] \<or> s2 = [] then None
           else
             let s3 = tl s2;
                 body = takeWhile (\<lambda>c. c \<noteq> CHR '';'') s3;
                 s4 = dropWhile (\<lambda>c. c \<noteq> CHR '';'') s3;
                 g2 = (if dropWhile is_space body = [] then [last body]
                       else dropWhile is_space body)
             in if body = [] \<or> s4 = [] then None else Some (name, g2, tl s4)
      else None)"

function parse_from :: "string \<Rightarrow> string obj \<Rightarrow> string obj" where
  "parse_from [] variables = variables"
| "parse_from (c # cs) variables =
     (case match_decl (c # cs) of
        None \<Rightarrow> parse_from cs variables
      | Some (name, g2, rest) \<Rightarrow>
          parse_from rest (obj_set (trim name) (trim g2) variables))"
  by pat_completeness auto

lemma match_decl_shorter:
  "match_decl s = Some (name, g2, rest) \<Longrightarrow> length rest < length s"
proof -
  assume m: "match_decl s = Some (name, g2, rest)"
  define s2 where "s2 = dropWhile (\<lambda>c. c \<noteq> CHR '':'') (drop 2 s)"
  define s4 where "s4 = dropWhile (\<lambda>c. c \<noteq> CHR '';'') (tl s2)"
  from m have r: "rest = tl s4" and ne: "s4 \<noteq> []"
    by (auto simp: match_decl_def Let_def s2_def s4_def split: if_splits)
  have "length s4 \<le> length (tl s2)"
    unfolding s4_def by (rule length_dropWhile_le)
  also have "\<dots> \<le> length s2" by simp
  also have "\<dots> \<le> length (drop 2 s)"
    unfolding s2_def by (rule length_dropWhile_le)
  also have "\<dots> \<le> length s" by simp
  finally have "length s4 \<le> length s" .
  with ne show ?thesis by (cases s4) (simp_all add: r)
qed

termination parse_from
  by (relation "measure (\<lambda>(s, _). length s)") (auto dest: match_decl_shorter)

definition parseVariables :: "string \<Rightarrow> string obj" where
  "parseVariables content = parse_from content []"

section \<open>Name simplification\<close>

text \<open>
  \<open>simplifyName\<close> chains seven anchored replacements, each applied to the result of
  the one before it, in the order of the source.
\<close>

definition simplifyName :: "string \<Rightarrow> string" where
  "simplifyName name =
     replace_prefix ''typography-font-'' ''font-family-''
       (replace_prefix ''outline-outline-'' ''outline-''
         (replace_prefix ''icon-icon-'' ''icon-''
           (replace_prefix ''text-text-'' ''text-''
             (replace_prefix ''surface-surface-'' ''surface-''
               (replace_prefix ''size-size-'' ''size-''
                 (replace_prefix ''border-border-'' ''border-'' name))))))"

text \<open>The six prefixes that \<open>simplifyName\<close> shortens when they stand doubled.\<close>

definition doubled_prefixes :: "string list" where
  "doubled_prefixes =
     [''border-'', ''size-'', ''surface-'', ''text-'', ''icon-'', ''outline-'']"

definition tripled :: "string \<Rightarrow> bool" where
  "tripled name = list_ex (\<lambda>p. startsWith name (p @ p @ p)) doubled_prefixes"

text \<open>
  \<open>simplifyVariableReferences\<close> replaces every match of \<^verbatim>\<open>/var\(--([^)]+)\)/g\<close>.
  \<open>match_var\<close> is a match anchored at the head of its argument: the captured name is
  the longest non-empty run without a closing parenthesis, and one must follow.
\<close>

definition match_var :: "string \<Rightarrow> (string \<times> string) option" where
  "match_var s =
     (if startsWith s ''var(--'' then
        let s1 = drop 6 s;
            varName = takeWhile (\<lambda>c. c \<noteq> CHR '')'') s1;
            s2 = dropWhile (\<lambda>c. c \<noteq> CHR '')'') s1
        in if varName = [] \<or> s2 = [] then None else Some (varName, tl s2)
      else None)"

function replace_vars :: "string \<Rightarrow> string" where
  "replace_vars [] = []"
| "replace_vars (c # cs) =
     (case match_var (c # cs) of
        None \<Rightarrow> c # replace_vars cs
      | Some (varName, rest) \<Rightarrow>
          ''var(--'' @ simplifyName varName @ '')'' @ replace_vars rest)"
  by pat_completeness auto

lemma match_var_shorter:
  "match_var s = Some (varName, rest) \<Longrightarrow> length rest < length s"
proof -
  assume m: "match_var s = Some (varName, rest)"
  define s2 where "s2 = dropWhile (\<lambda>c. c \<noteq> CHR '')'') (drop 6 s)"
  from m have r: "rest = tl s2" and ne: "s2 \<noteq> []"
    by (auto simp: match_var_def Let_def s2_def split: if_splits)
  have "length s2 \<le> length (drop 6 s)"
    unfolding s2_def by (rule length_dropWhile_le)
  also have "\<dots> \<le> length s" by simp
  finally have "length s2 \<le> length s" .
  with ne show ?thesis by (cases s2) (simp_all add: r)
qed

termination replace_vars
  by (relation "measure length") (auto dest: match_var_shorter)

definition simplifyVariableReferences :: "string \<Rightarrow> string" where
  "simplifyVariableReferences v =
     (if \<not> includes_str v ''var(--'' then v else replace_vars v)"

text \<open>
  \<open>value.match(/var\(--([^)]+)\)/)[1]\<close>: the first group of the leftmost match, or
  \<open>None\<close> when the expression does not match (the source then reads a property of
  \<open>null\<close>).
\<close>

fun search_var :: "string \<Rightarrow> string option" where
  "search_var [] = None"
| "search_var (c # cs) =
     (case match_var (c # cs) of None \<Rightarrow> search_var cs | Some (varName, rest) \<Rightarrow> Some varName)"

section \<open>Numbers\<close>

text \<open>
  A JavaScript number is \<open>NaN\<close>, an infinity or a finite value. Finite values are
  exact rationals: the rounding of IEEE-754 doubles, overflow and the sign of zero are
  not modelled, and \<open>num_to_string\<close> prints a positional decimal (JavaScript switches to
  exponent notation from \<open>10^21\<close> on and below \<open>10^-6\<close>). \<open>toFixed\<close> rounds the exact
  value, as the language specification says it does.
\<close>

datatype jsnum = NaN | PInf | NInf | Fin rat

definition truthy :: "jsnum \<Rightarrow> bool" where
  "truthy x = (case x of NaN \<Rightarrow> False | Fin r \<Rightarrow> r \<noteq> 0 | _ \<Rightarrow> True)"

fun num_neg :: "jsnum \<Rightarrow> jsnum" where
  "num_neg NaN = NaN"
| "num_neg PInf = NInf"
| "num_neg NInf = PInf"
| "num_neg (Fin a) = Fin (- a)"

fun num_add :: "jsnum \<Rightarrow> jsnum \<Rightarrow> jsnum" where
  "num_add (Fin a) (Fin b) = Fin (a + b)"
| "num_add NaN _ = NaN"
| "num_add _ NaN = NaN"
| "num_add PInf NInf = NaN"
| "num_add NInf PInf = NaN"
| "num_add PInf _ = PInf"
| "num_add _ PInf = PInf"
| "num_add NInf _ = NInf"
| "num_add _ NInf = NInf"

definition num_sub :: "jsnum \<Rightarrow> jsnum \<Rightarrow> jsnum" where
  "num_sub a b = num_add a (num_neg b)"

fun num_mul :: "jsnum \<Rightarrow> jsnum \<Rightarrow> jsnum" where
  "num_mul (Fin a) (Fin b) = Fin (a * b)"
| "num_mul NaN _ = NaN"
| "num_mul _ NaN = NaN"
| "num_mul PInf (Fin b) = (if b = 0 then NaN else if 0 < b then PInf else NInf)"
| "num_mul NInf (Fin b) = (if b = 0 then NaN else if 0 < b then NInf else PInf)"
| "num_mul (Fin a) PInf = (if a = 0 then NaN else if 0 < a then PInf else NInf)"
| "num_mul (Fin a) NInf = (if a = 0 then NaN else if 0 < a then NInf else PInf)"
| "num_mul PInf PInf = PInf"
| "num_mul NInf NInf = PInf"
| "num_mul PInf NInf = NInf"
| "num_mul NInf PInf = NInf"

fun num_div :: "jsnum \<Rightarrow> jsnum \<Rightarrow> jsnum" where
  "num_div (Fin a) (Fin b) =
     (if b = 0 then (if a = 0 then NaN else if 0 < a then PInf else NInf) else Fin (a / b))"
| "num_div NaN _ = NaN"
| "num_div _ NaN = NaN"
| "num_div (Fin a) PInf = Fin 0"
| "num_div (Fin a) NInf = Fin 0"
| "num_div PInf (Fin b) = (if 0 \<le> b then PInf else NInf)"
| "num_div NInf (Fin b) = (if 0 \<le> b then NInf else PInf)"
| "num_div PInf PInf = NaN"
| "num_div PInf NInf = NaN"
| "num_div NInf PInf = NaN"
| "num_div NInf NInf = NaN"

text \<open>The sign of a comparator's result, as \<open>Array.prototype.sort\<close> reads it: \<open>NaN\<close> counts as zero.\<close>

definition num_sign :: "jsnum \<Rightarrow> int" where
  "num_sign x =
     (case x of
        NaN \<Rightarrow> 0
      | PInf \<Rightarrow> 1
      | NInf \<Rightarrow> - 1
      | Fin r \<Rightarrow> (if r < 0 then - 1 else if r = 0 then 0 else 1))"

definition digit_char :: "nat \<Rightarrow> char" where
  "digit_char d = ''0123456789'' ! d"

definition digit_val :: "char \<Rightarrow> int" where
  "digit_val c = of_char c - 48"

text \<open>The decimal digits of an integer that is not negative.\<close>

function digits_of_int :: "int \<Rightarrow> string" where
  "digits_of_int n =
     (if n < 10 then [digit_char (nat n)]
      else digits_of_int (n div 10) @ [digit_char (nat (n mod 10))])"
  by pat_completeness auto
termination
  by (relation "measure nat") auto

declare digits_of_int.simps [simp del]

text \<open>\<open>parseInt\<close> of a string of decimal digits.\<close>

definition int_of_digits :: "string \<Rightarrow> int" where
  "int_of_digits ds = foldl (\<lambda>n c. 10 * n + digit_val c) 0 ds"

definition int_to_string :: "int \<Rightarrow> string" where
  "int_to_string i = (if i < 0 then ''-'' @ digits_of_int (- i) else digits_of_int i)"

text \<open>The digits after the decimal point of a value in \<open>[0, 1)\<close>, at most as many as the fuel.\<close>

fun frac_digits :: "nat \<Rightarrow> rat \<Rightarrow> string" where
  "frac_digits 0 r = []"
| "frac_digits (Suc n) r =
     (if r = 0 then []
      else digit_char (nat \<lfloor>r * 10\<rfloor>) # frac_digits n (r * 10 - of_int \<lfloor>r * 10\<rfloor>))"

definition num_to_string :: "jsnum \<Rightarrow> string" where
  "num_to_string x =
     (case x of
        NaN \<Rightarrow> ''NaN''
      | PInf \<Rightarrow> ''Infinity''
      | NInf \<Rightarrow> ''-Infinity''
      | Fin r \<Rightarrow>
          (let a = \<bar>r\<bar>; ip = \<lfloor>a\<rfloor>; fp = frac_digits 20 (a - of_int ip)
           in (if r < 0 then ''-'' else []) @ digits_of_int ip @
              (if fp = [] then [] else ''.'' @ fp)))"

text \<open>\<open>x.toFixed(f)\<close>: the integer \<open>n\<close> with \<open>n / 10^f\<close> closest to \<open>x\<close>, the larger on a tie.\<close>

definition toFixed :: "nat \<Rightarrow> jsnum \<Rightarrow> string" where
  "toFixed f x =
     (case x of
        NaN \<Rightarrow> ''NaN''
      | PInf \<Rightarrow> ''Infinity''
      | NInf \<Rightarrow> ''-Infinity''
      | Fin r \<Rightarrow>
          (if 10 ^ 21 \<le> \<bar>r\<bar> then num_to_string (Fin r)
           else
             let n = \<lfloor>\<bar>r\<bar> * 10 ^ f + 1 / 2\<rfloor>;
                 m = digits_of_int n;
                 m' = (if length m \<le> f then replicate (f + 1 - length m) CHR ''0'' @ m else m)
             in (if r < 0 then ''-'' else []) @
                (if f = 0 then m'
                 else take (length m' - f) m' @ ''.'' @ drop (length m' - f) m')))"

text \<open>
  \<open>parseFloat\<close>: leading white space, a sign, then \<open>Infinity\<close> or the longest decimal
  literal (digits, a fraction, an exponent); \<open>NaN\<close> when there is no digit.
\<close>

definition parse_exponent :: "string \<Rightarrow> int" where
  "parse_exponent s =
     (case s of
        [] \<Rightarrow> 0
      | c # r \<Rightarrow>
          (if c = CHR ''e'' \<or> c = CHR ''E'' then
             (case r of
                [] \<Rightarrow> 0
              | d # r' \<Rightarrow>
                  (if d = CHR ''-'' then
                     (if takeWhile is_digit r' = [] then 0
                      else - int_of_digits (takeWhile is_digit r'))
                   else if d = CHR ''+'' then int_of_digits (takeWhile is_digit r')
                   else int_of_digits (takeWhile is_digit r)))
           else 0))"

definition parseFloat :: "string \<Rightarrow> jsnum" where
  "parseFloat s =
     (let t = dropWhile is_space s;
          neg = (t \<noteq> [] \<and> hd t = CHR ''-'');
          u = (if t \<noteq> [] \<and> (hd t = CHR ''-'' \<or> hd t = CHR ''+'') then tl t else t)
      in if startsWith u ''Infinity'' then (if neg then NInf else PInf)
         else
           let ip = takeWhile is_digit u;
               u1 = dropWhile is_digit u;
               fp = (if u1 \<noteq> [] \<and> hd u1 = CHR ''.'' then takeWhile is_digit (tl u1) else []);
               u2 = (if u1 \<noteq> [] \<and> hd u1 = CHR ''.'' then dropWhile is_digit (tl u1) else u1)
           in if ip = [] \<and> fp = [] then NaN
              else
                let m = of_int (int_of_digits (ip @ fp)) / 10 ^ length fp;
                    e = parse_exponent u2;
                    v = (if 0 \<le> e then m * 10 ^ nat e else m / 10 ^ nat (- e))
                in Fin (if neg then - v else v))"

section \<open>Fluid typography\<close>

definition generateClamp :: "jsnum \<Rightarrow> jsnum \<Rightarrow> jsnum \<Rightarrow> jsnum \<Rightarrow> string" where
  "generateClamp minWidthPx maxWidthPx minFontSize maxFontSize =
     (let pixelsPerRem = Fin 16;
          minWidth = num_div minWidthPx pixelsPerRem;
          maxWidth = num_div maxWidthPx pixelsPerRem;
          slope = num_div (num_sub maxFontSize minFontSize) (num_sub maxWidth minWidth);
          yAxisIntersection = num_add (num_mul (num_neg minWidth) slope) minFontSize
      in ''clamp('' @ num_to_string minFontSize @ ''rem, '' @
         toFixed 4 yAxisIntersection @ ''rem + '' @
         toFixed 4 (num_mul slope (Fin 100)) @ ''vw, '' @
         num_to_string maxFontSize @ ''rem)'')"

text \<open>
  \<open>Array.prototype.sort\<close> with a comparator is stable; for a consistent comparator its
  result is the one of this stable insertion sort (for an inconsistent one the language
  leaves the order to the implementation). \<open>sort_by\<close> is for a comparator that cannot
  throw, \<open>sort_js\<close> for one that can.
\<close>

fun insort_by :: "('a \<Rightarrow> 'a \<Rightarrow> jsnum) \<Rightarrow> 'a \<Rightarrow> 'a list \<Rightarrow> 'a list" where
  "insort_by cmp x [] = [x]"
| "insort_by cmp x (y # ys) =
     (if num_sign (cmp x y) \<le> 0 then x # y # ys else y # insort_by cmp x ys)"

fun sort_by :: "('a \<Rightarrow> 'a \<Rightarrow> jsnum) \<Rightarrow> 'a list \<Rightarrow> 'a list" where
  "sort_by cmp [] = []"
| "sort_by cmp (x # xs) = insort_by cmp x (sort_by cmp xs)"

fun insort_js :: "('a \<Rightarrow> 'a \<Rightarrow> error + jsnum) \<Rightarrow> 'a \<Rightarrow> 'a list \<Rightarrow> error + 'a list" where
  "insort_js cmp x [] = Inr [x]"
| "insort_js cmp x (y # ys) =
     (case cmp x y of
        Inl e \<Rightarrow> Inl e
      | Inr v \<Rightarrow>
          (if num_sign v \<le> 0 then Inr (x # y # ys)
           else (case insort_js cmp x ys of Inl e \<Rightarrow> Inl e | Inr zs \<Rightarrow> Inr (y # zs))))"

fun sort_js :: "('a \<Rightarrow> 'a \<Rightarrow> error + jsnum) \<Rightarrow> 'a list \<Rightarrow> error + 'a list" where
  "sort_js cmp [] = Inr []"
| "sort_js cmp (x # xs) =
     (case sort_js cmp xs of Inl e \<Rightarrow> Inl e | Inr ys \<Rightarrow> insort_js cmp x ys)"

record FontSizeStep =
  originalStep :: int
  minRem :: jsnum
  maxRem :: "jsnum option"
  avgValue :: jsnum

text \<open>
  A match of \<^verbatim>\<open>--font-size-min-step-(\d+)-rem:\s*([\d.]+)rem;\<close> (and the same for
  \<open>max\<close>) anchored at the head of the argument, and the leftmost match in a line. The
  result holds the two groups.
\<close>

definition match_step :: "string \<Rightarrow> string \<Rightarrow> (string \<times> string) option" where
  "match_step lit s =
     (if startsWith s lit then
        let s1 = drop (length lit) s;
            ds = takeWhile is_digit s1;
            s2 = dropWhile is_digit s1
        in if ds = [] \<or> \<not> startsWith s2 ''-rem:'' then None
           else
             let s3 = dropWhile is_space (drop 5 s2);
                 num = takeWhile (\<lambda>c. is_digit c \<or> c = CHR ''.'') s3;
                 s4 = dropWhile (\<lambda>c. is_digit c \<or> c = CHR ''.'') s3
             in if num = [] \<or> \<not> startsWith s4 ''rem;'' then None else Some (ds, num)
      else None)"

fun search_step :: "string \<Rightarrow> string \<Rightarrow> (string \<times> string) option" where
  "search_step lit [] = None"
| "search_step lit (c # cs) =
     (case match_step lit (c # cs) of None \<Rightarrow> search_step lit cs | Some m \<Rightarrow> Some m)"

text \<open>The inner loop: the first of the given lines that declares the maximum of the step.\<close>

fun find_max :: "int \<Rightarrow> string list \<Rightarrow> jsnum option" where
  "find_max step [] = None"
| "find_max step (l # ls) =
     (case search_step ''--font-size-max-step-'' l of
        None \<Rightarrow> find_max step ls
      | Some (ds, num) \<Rightarrow>
          (if int_of_digits ds = step then Some (parseFloat num) else find_max step ls))"

text \<open>The outer loop over the lines; the inner loop reads the four lines that follow.\<close>

fun all_steps :: "string list \<Rightarrow> FontSizeStep list" where
  "all_steps [] = []"
| "all_steps (l # ls) =
     (case search_step ''--font-size-min-step-'' l of
        None \<Rightarrow> all_steps ls
      | Some (ds, num) \<Rightarrow>
          \<lparr>originalStep = int_of_digits ds, minRem = parseFloat num,
           maxRem = find_max (int_of_digits ds) (take 4 ls),
           avgValue = parseFloat num\<rparr> # all_steps ls)"

definition step_key :: "FontSizeStep \<Rightarrow> string" where
  "step_key step =
     num_to_string (minRem step) @ ''-'' @
     (case maxRem step of None \<Rightarrow> ''null'' | Some m \<Rightarrow> num_to_string m)"

fun unique_steps :: "string set \<Rightarrow> FontSizeStep list \<Rightarrow> FontSizeStep list" where
  "unique_steps seen [] = []"
| "unique_steps seen (step # steps) =
     (if step_key step \<in> seen then unique_steps seen steps
      else step # unique_steps (insert (step_key step) seen) steps)"

definition sort_steps :: "FontSizeStep list \<Rightarrow> FontSizeStep list" where
  "sort_steps steps = sort_by (\<lambda>a b. num_sub (avgValue a) (avgValue b)) steps"

text \<open>The index of the first step whose \<open>originalStep\<close> is 0, or \<open>-1\<close>.\<close>

fun find_step0 :: "int \<Rightarrow> FontSizeStep list \<Rightarrow> int" where
  "find_step0 i [] = - 1"
| "find_step0 i (step # steps) =
     (if originalStep step = 0 then i else find_step0 (i + 1) steps)"

definition outputStep :: "int \<Rightarrow> int \<Rightarrow> FontSizeStep \<Rightarrow> int" where
  "outputStep step0Index i data =
     (if i < step0Index then i - step0Index
      else if i = step0Index then 0
      else originalStep data)"

text \<open>The value the last loop assigns for one step, if it assigns one.\<close>

definition step_value :: "jsnum \<Rightarrow> jsnum \<Rightarrow> FontSizeStep \<Rightarrow> string option" where
  "step_value minWidth maxWidth data =
     (case maxRem data of
        None \<Rightarrow>
          (if truthy (minRem data) then Some (num_to_string (minRem data) @ ''rem'') else None)
      | Some mx \<Rightarrow>
          (if truthy (minRem data) \<and> truthy mx
           then Some (generateClamp minWidth maxWidth (minRem data) mx)
           else if truthy (minRem data) then Some (num_to_string (minRem data) @ ''rem'')
           else if truthy mx then Some (num_to_string mx @ ''rem'')
           else None))"

fun emit_steps ::
  "jsnum \<Rightarrow> jsnum \<Rightarrow> int \<Rightarrow> int \<Rightarrow> FontSizeStep list \<Rightarrow> string obj \<Rightarrow> string obj" where
  "emit_steps minWidth maxWidth step0Index i [] fontSizes = fontSizes"
| "emit_steps minWidth maxWidth step0Index i (data # rest) fontSizes =
     emit_steps minWidth maxWidth step0Index (i + 1) rest
       (case step_value minWidth maxWidth data of
          None \<Rightarrow> fontSizes
        | Some v \<Rightarrow>
            obj_set (''font-size-step-'' @ int_to_string (outputStep step0Index i data)) v
              fontSizes)"

definition remove_quotes :: "string \<Rightarrow> string" where
  "remove_quotes s = filter (\<lambda>c. c \<noteq> CHR 0x22) s"

definition processFontSizes :: "string obj \<Rightarrow> string \<Rightarrow> error + string obj" where
  "processFontSizes variables originalCSS =
     (case obj_get variables ''viewport-min-width'' of
        None \<Rightarrow> Inl TypeError
      | Some minText \<Rightarrow>
          (case obj_get variables ''viewport-max-width'' of
             None \<Rightarrow> Inl TypeError
           | Some maxText \<Rightarrow>
               (let uniqueSteps = sort_steps (unique_steps {} (all_steps (split_lines originalCSS)))
                in Inr (emit_steps (parseFloat (remove_quotes minText))
                          (parseFloat (remove_quotes maxText))
                          (find_step0 0 uniqueSteps) 0 uniqueSteps []))))"

section \<open>Rule engine\<close>

text \<open>
  A value stored in \<open>primitives\<close> is a string, or \<open>undefined\<close> when the source stores
  the result of reading a name that the raw table does not hold.
\<close>

datatype jsval = Undefined | Str string

record ProcessedResult =
  primitives :: "jsval obj"
  lightMode :: "string obj"
  darkMode :: "string obj"

definition lookup_val :: "string obj \<Rightarrow> string \<Rightarrow> jsval" where
  "lookup_val variables k = (case obj_get variables k of None \<Rightarrow> Undefined | Some v \<Rightarrow> Str v)"

definition is_mode :: "string \<Rightarrow> bool" where
  "is_mode name = (endsWith name ''-light-mode'' \<or> endsWith name ''-dark-mode'')"

definition is_skipped :: "string \<Rightarrow> bool" where
  "is_skipped name =
     (startsWith name ''font-size-mid-'' \<or> startsWith name ''font-weight-'' \<or>
      startsWith name ''type-'' \<or> startsWith name ''viewport-'')"

text \<open>The body of the first loop: mode separation.\<close>

definition mode_step :: "string \<times> string \<Rightarrow> ProcessedResult \<Rightarrow> ProcessedResult" where
  "mode_step entry result =
     (let name = fst entry; v = snd entry
      in if endsWith name ''-light-mode'' then
           result\<lparr>lightMode :=
             obj_set (simplifyName (strip_suffix ''-light-mode'' name))
               (simplifyVariableReferences v) (lightMode result)\<rparr>
         else if endsWith name ''-dark-mode'' then
           result\<lparr>darkMode :=
             obj_set (simplifyName (strip_suffix ''-dark-mode'' name))
               (simplifyVariableReferences v) (darkMode result)\<rparr>
         else result)"

text \<open>
  The body of the second loop: names with the suffix \<open>-rem\<close>. The state is the table
  \<open>primitives\<close> and the set \<open>processed\<close>.
\<close>

definition rem_step ::
  "string obj \<Rightarrow> string \<times> string \<Rightarrow> jsval obj \<times> string set \<Rightarrow> jsval obj \<times> string set" where
  "rem_step variables entry st =
     (let name = fst entry; v = snd entry; prims = fst st; processed = snd st
      in if is_mode name then st
         else if is_skipped name then st
         else if endsWith name ''-rem'' then
           (let baseName = strip_suffix ''-rem'' name
            in if startsWith baseName ''font-size-'' \<or> baseName = ''radii-full'' \<or>
                  baseName = ''spacing-px''
               then
                 (if baseName = ''radii-full'' then
                    (obj_set ''radii-full'' (lookup_val variables ''radii-full'') prims,
                     insert ''radii-full'' processed)
                  else if baseName = ''spacing-px'' then
                    (obj_set ''spacing-px'' (lookup_val variables ''spacing-px'') prims,
                     insert ''spacing-px'' processed)
                  else st)
               else
                 (let cleanValue = (if v = ''0rem'' then ''0'' else v);
                      cleanName = simplifyName baseName
                  in (if startsWith baseName ''typography-font-''
                      then obj_set cleanName (lookup_val variables baseName) prims
                      else obj_set cleanName (Str cleanValue) prims,
                      insert name (insert baseName processed))))
         else st)"

text \<open>
  The body of the third loop: names without the suffix \<open>-rem\<close>. \<open>!variables[remName]\<close>
  holds when the name is absent or its value is the empty string.
\<close>

definition falsy :: "string option \<Rightarrow> bool" where
  "falsy v = (case v of None \<Rightarrow> True | Some s \<Rightarrow> s = [])"

definition fallback_step ::
  "string obj \<Rightarrow> string set \<Rightarrow> string \<times> string \<Rightarrow> jsval obj \<Rightarrow> error + jsval obj" where
  "fallback_step variables processed entry prims =
     (let name = fst entry; v = snd entry
      in if name \<in> processed \<or> endsWith name ''-rem'' then Inr prims
         else if is_mode name then Inr prims
         else if is_skipped name then Inr prims
         else if falsy (obj_get variables (name @ ''-rem'')) then
           (let cleanValue = (if v = ''0px'' then ''0'' else v);
                cleanName = simplifyName name
            in if startsWith name ''font-family-'' \<and>
                  startsWith cleanValue ''var(--typography-font-''
               then
                 (case search_var cleanValue of
                    None \<Rightarrow> Inl TypeError
                  | Some refName \<Rightarrow>
                      Inr (obj_set cleanName
                             (Str (if falsy (obj_get variables refName) then cleanValue
                                   else the (obj_get variables refName)))
                             prims))
               else Inr (obj_set cleanName (Str cleanValue) prims))
         else Inr prims)"

text \<open>\<open>Object.assign(target, source)\<close>.\<close>

definition obj_assign :: "'v obj \<Rightarrow> 'v obj \<Rightarrow> 'v obj" where
  "obj_assign target source = fold (\<lambda>kv. obj_set (fst kv) (snd kv)) source target"

definition processVariables :: "string obj \<Rightarrow> string \<Rightarrow> error + ProcessedResult" where
  "processVariables variables originalCSS =
     (let modes = fold mode_step variables \<lparr>primitives = [], lightMode = [], darkMode = []\<rparr>;
          st = fold (rem_step variables) variables ([], {})
      in case fold_err (fallback_step variables (snd st)) variables (fst st) of
           Inl e \<Rightarrow> Inl e
         | Inr prims \<Rightarrow>
             (case processFontSizes variables originalCSS of
                Inl e \<Rightarrow> Inl e
              | Inr fontSizes \<Rightarrow>
                  Inr (modes\<lparr>primitives :=
                         obj_assign prims (map (\<lambda>kv. (fst kv, Str (snd kv))) fontSizes)\<rparr>)))"

section \<open>Grouping, ordering and serialisation\<close>

text \<open>
  \<open>String.prototype.localeCompare\<close> depends on the locale data of the host; the model
  takes it as the parameter \<open>lc\<close> of every function that reaches it.
\<close>

definition knownColorOrder :: "string list" where
  "knownColorOrder =
     [''color-default'', ''color-gray'', ''color-primary'', ''color-secondary'',
      ''color-tertiary'', ''color-highlight'', ''color-accent'']"

definition otherGroupsOrder :: "string list" where
  "otherGroupsOrder =
     [''container'', ''header'', ''font-family'', ''border'', ''radii'', ''spacing'',
      ''size'', ''font-size'', ''surface'', ''text'', ''icon'', ''outline'']"

text \<open>\<open>name.match(/^color-([a-z]+)/)\<close>, rendered as \<open>color-<family>\<close>.\<close>

definition color_match :: "string \<Rightarrow> string option" where
  "color_match name =
     (if startsWith name ''color-'' then
        (let family = takeWhile is_lower (drop 6 name)
         in if family = [] then None else Some (''color-'' @ family))
      else None)"

text \<open>A \<open>Set\<close> keeps its elements in insertion order.\<close>

definition set_add :: "'a \<Rightarrow> 'a list \<Rightarrow> 'a list" where
  "set_add x xs = (if x \<in> set xs then xs else xs @ [x])"

definition detectedColorGroups :: "string list \<Rightarrow> string list" where
  "detectedColorGroups names =
     fold (\<lambda>name acc. case color_match name of None \<Rightarrow> acc | Some g \<Rightarrow> set_add g acc) names []"

text \<open>
  The default \<open>sort()\<close> orders strings by their code units; the elements are distinct,
  so every sorting algorithm gives the same list.
\<close>

definition newColorGroups :: "string list \<Rightarrow> string list" where
  "newColorGroups names =
     sort (filter (\<lambda>g. g \<notin> set knownColorOrder) (detectedColorGroups names))"

definition finalGroupOrder :: "string list \<Rightarrow> string list" where
  "finalGroupOrder names = knownColorOrder @ newColorGroups names @ otherGroupsOrder"

text \<open>\<open>groups[k].push(x)\<close> for a key that the object holds.\<close>

definition push_group :: "string \<Rightarrow> 'a \<Rightarrow> 'a list obj \<Rightarrow> 'a list obj" where
  "push_group k x groups =
     (case obj_get groups k of None \<Rightarrow> groups | Some xs \<Rightarrow> obj_set k (xs @ [x]) groups)"

definition initial_groups :: "string list \<Rightarrow> (string \<times> jsval) list obj" where
  "initial_groups names =
     fold (\<lambda>pfx. obj_set pfx [])
       (knownColorOrder @ otherGroupsOrder @ newColorGroups names) []"

text \<open>The body of the grouping loop: the color group first, then the other groups.\<close>

definition group_step ::
  "string \<times> jsval \<Rightarrow> (string \<times> jsval) list obj \<Rightarrow> (string \<times> jsval) list obj" where
  "group_step entry groups =
     (let name = fst entry;
          color = (case color_match name of
                     None \<Rightarrow> None
                   | Some colorPrefix \<Rightarrow>
                       (if obj_get groups colorPrefix = None then None else Some colorPrefix))
      in case color of
           Some colorPrefix \<Rightarrow> push_group colorPrefix entry groups
         | None \<Rightarrow>
             (case find (startsWith name) otherGroupsOrder of
                None \<Rightarrow> groups
              | Some pfx \<Rightarrow> push_group pfx entry groups))"

definition group_primitives :: "jsval obj \<Rightarrow> (string \<times> jsval) list obj" where
  "group_primitives prims = fold group_step prims (initial_groups (obj_keys prims))"

text \<open>\<open>xs.indexOf(x)\<close>.\<close>

fun index_from :: "int \<Rightarrow> 'a \<Rightarrow> 'a list \<Rightarrow> int" where
  "index_from i x [] = - 1"
| "index_from i x (y # ys) = (if x = y then i else index_from (i + 1) x ys)"

definition indexOf :: "'a list \<Rightarrow> 'a \<Rightarrow> int" where
  "indexOf xs x = index_from 0 x xs"

definition radiiOrder :: "string list" where
  "radiiOrder = [''xs'', ''sm'', ''md'', ''lg'', ''xl'', ''2xl'', ''3xl'', ''4xl'', ''full'']"

definition borderOrder :: "string list" where
  "borderOrder = [''xs'', ''sm'', ''md'', ''lg'', ''xl'']"

definition rank_compare :: "string list \<Rightarrow> string \<Rightarrow> string \<Rightarrow> string \<Rightarrow> jsnum option" where
  "rank_compare order lit a b =
     (let aIndex = indexOf order (replace_first lit [] a);
          bIndex = indexOf order (replace_first lit [] b)
      in if aIndex \<noteq> - 1 \<and> bIndex \<noteq> - 1 then Some (Fin (of_int (aIndex - bIndex))) else None)"

text \<open>
  \<open>parseInt(s.match(/step-(-?\d+)/)[1])\<close>: anchored at the head, and the leftmost match;
  \<open>None\<close> when the expression does not match.
\<close>

definition match_step_number :: "string \<Rightarrow> int option" where
  "match_step_number s =
     (if startsWith s ''step-'' then
        (let r = drop 5 s
         in if r \<noteq> [] \<and> hd r = CHR ''-'' \<and> takeWhile is_digit (tl r) \<noteq> []
            then Some (- int_of_digits (takeWhile is_digit (tl r)))
            else if takeWhile is_digit r \<noteq> [] then Some (int_of_digits (takeWhile is_digit r))
            else None)
      else None)"

fun search_step_number :: "string \<Rightarrow> int option" where
  "search_step_number [] = None"
| "search_step_number (c # cs) =
     (case match_step_number (c # cs) of None \<Rightarrow> search_step_number cs | Some n \<Rightarrow> Some n)"

definition trailing_digits :: "string \<Rightarrow> string" where
  "trailing_digits s = rev (takeWhile is_digit (rev s))"

text \<open>\<open>parseInt(s.match(/-(\d+)$/)[1])\<close> when the expression matches.\<close>

definition trailing_number :: "string \<Rightarrow> int option" where
  "trailing_number s =
     (let ds = trailing_digits s; pre = take (length s - length ds) s
      in if ds \<noteq> [] \<and> pre \<noteq> [] \<and> last pre = CHR ''-'' then Some (int_of_digits ds) else None)"

text \<open>\<open>s.match(/(\d+)(_\d+)?$/)[0]\<close> when the expression matches.\<close>

definition trailing_decimal :: "string \<Rightarrow> string option" where
  "trailing_decimal s =
     (let d2 = trailing_digits s; pre = take (length s - length d2) s
      in if d2 = [] then None
         else if pre \<noteq> [] \<and> last pre = CHR ''_'' \<and> trailing_digits (butlast pre) \<noteq> []
         then Some (trailing_digits (butlast pre) @ ''_'' @ d2)
         else Some d2)"

definition sortVariables ::
  "(string \<Rightarrow> string \<Rightarrow> int) \<Rightarrow> string \<Rightarrow> string \<Rightarrow> string \<Rightarrow> error + jsnum" where
  "sortVariables lc a b pfx =
     (case (if pfx = ''radii'' then rank_compare radiiOrder ''radii-'' a b else None) of
        Some r \<Rightarrow> Inr r
      | None \<Rightarrow>
     (case (if pfx = ''border'' then rank_compare borderOrder ''border-'' a b else None) of
        Some r \<Rightarrow> Inr r
      | None \<Rightarrow>
     (if pfx = ''font-size'' \<and> includes_str a ''step-'' \<and> includes_str b ''step-'' then
        (case search_step_number a of
           None \<Rightarrow> Inl TypeError
         | Some aStep \<Rightarrow>
             (case search_step_number b of
                None \<Rightarrow> Inl TypeError
              | Some bStep \<Rightarrow> Inr (Fin (of_int (bStep - aStep)))))
      else if trailing_number a \<noteq> None \<and> trailing_number b \<noteq> None then
        Inr (Fin (of_int (the (trailing_number a) - the (trailing_number b))))
      else if (pfx = ''spacing'' \<or> pfx = ''size'') \<and> a = ''spacing-px'' then Inr (Fin (- 1))
      else if (pfx = ''spacing'' \<or> pfx = ''size'') \<and> b = ''spacing-px'' then Inr (Fin 1)
      else if (pfx = ''spacing'' \<or> pfx = ''size'') \<and>
              trailing_decimal a \<noteq> None \<and> trailing_decimal b \<noteq> None then
        Inr (num_sub (parseFloat (replace_first ''_'' ''.'' (the (trailing_decimal a))))
                     (parseFloat (replace_first ''_'' ''.'' (the (trailing_decimal b)))))
      else Inr (Fin (of_int (lc a b))))))"

definition categoryOrder :: "(string \<times> string list) list" where
  "categoryOrder =
     [(''surface'',
       [''background'', ''background-0'', ''primary-default'', ''primary-hover'',
        ''primary-active'', ''secondary-default'', ''secondary-hover'', ''secondary-active'',
        ''tertiary-default'', ''tertiary-hover'', ''tertiary-active'', ''quaternary'',
        ''quinary'', ''senary'', ''septenary'', ''octonary'', ''accent'',
        ''highlight-default'', ''highlight-active'', ''highlight-hover'', ''focus'',
        ''error'', ''warning'', ''success'', ''info'']),
      (''text'',
       [''foreground-default'', ''foreground-hover'', ''foreground-active'',
        ''primary-default'', ''primary-hover'', ''primary-active'', ''secondary-default'',
        ''secondary-hover'', ''secondary-active'', ''tertiary-default'', ''tertiary-hover'',
        ''tertiary-active'', ''quaternary'', ''quinary'', ''senary'', ''septenary'',
        ''octonary'', ''inverted'', ''accent'', ''highlight-default'', ''highlight-hover'',
        ''highlight-active'', ''focus'', ''error'', ''warning'', ''success'', ''info'']),
      (''icon'',
       [''foreground'', ''foreground-hover'', ''foreground-active'', ''primary-default'',
        ''primary-hover'', ''primary-active'', ''secondary-default'', ''secondary-hover'',
        ''secondary-active'', ''tertiary'', ''quaternary'', ''quinary'', ''senary'',
        ''septenary'', ''octonary'', ''inverted'', ''highlight-default'',
        ''highlight-hover'', ''highlight-active'']),
      (''outline'',
       [''primary-default'', ''primary-hover'', ''primary-active'', ''secondary-default'',
        ''secondary-hover'', ''secondary-active'', ''tertiary-default'', ''tertiary-hover'',
        ''tertiary-active'', ''quaternary'', ''quinary'', ''senary'', ''septenary'',
        ''octonary-default'', ''octonary-hover'', ''octonary-active'', ''disabled'',
        ''inverted'', ''focus'', ''error'', ''warning'', ''success'', ''info''])]"

text \<open>
  \<open>s.match(/^(.+?)(?:-(default|hover|active))?$/)\<close>: the base name and the state, the
  state \<open>default\<close> when the second group is absent. The expression matches no empty
  string and no string with a line terminator.
\<close>

definition split_state :: "string \<Rightarrow> (string \<times> string) option" where
  "split_state s =
     (if s = [] \<or> CHR 0x0A \<in> set s \<or> CHR 0x0D \<in> set s then None
      else if endsWith s ''-default'' \<and> 8 < length s then Some (take (length s - 8) s, ''default'')
      else if endsWith s ''-hover'' \<and> 6 < length s then Some (take (length s - 6) s, ''hover'')
      else if endsWith s ''-active'' \<and> 7 < length s then Some (take (length s - 7) s, ''active'')
      else Some (s, ''default''))"

text \<open>\<open>stateOrder[state] || 3\<close>: the rank 0 of \<open>default\<close> is falsy and becomes 3.\<close>

definition state_rank :: "string \<Rightarrow> int" where
  "state_rank st = (if st = ''hover'' then 1 else if st = ''active'' then 2 else 3)"

definition sortModeVariables :: "(string \<Rightarrow> string \<Rightarrow> int) \<Rightarrow> string \<Rightarrow> string \<Rightarrow> jsnum" where
  "sortModeVariables lc a b =
     (case find (\<lambda>co. startsWith a (fst co)) categoryOrder of
        None \<Rightarrow> Fin (of_int (lc a b))
      | Some co \<Rightarrow>
          (let aSuffix = replace_first (fst co @ ''-'') [] a;
               bSuffix = replace_first (fst co @ ''-'') [] b;
               aIndex = indexOf (snd co) aSuffix;
               bIndex = indexOf (snd co) bSuffix
           in if aIndex \<noteq> - 1 \<and> bIndex \<noteq> - 1 then Fin (of_int (aIndex - bIndex))
              else if aIndex \<noteq> - 1 then Fin (- 1)
              else if bIndex \<noteq> - 1 then Fin 1
              else
                (case split_state aSuffix of
                   None \<Rightarrow> Fin (of_int (lc aSuffix bSuffix))
                 | Some am \<Rightarrow>
                     (case split_state bSuffix of
                        None \<Rightarrow> Fin (of_int (lc aSuffix bSuffix))
                      | Some bm \<Rightarrow>
                          (if fst am = fst bm
                           then Fin (of_int (state_rank (snd am) - state_rank (snd bm)))
                           else Fin (of_int (lc (fst am) (fst bm))))))))"

definition val_to_string :: "jsval \<Rightarrow> string" where
  "val_to_string v = (case v of Undefined \<Rightarrow> ''undefined'' | Str s \<Rightarrow> s)"

definition decl_line :: "string \<Rightarrow> string \<Rightarrow> string \<Rightarrow> string" where
  "decl_line indent name v = indent @ ''--'' @ name @ '': '' @ v @ '';'' @ [CHR 0x0A]"

text \<open>The body of the loop over \<open>finalGroupOrder\<close>: a group that is not empty is sorted and written, with an empty line after it.\<close>

definition emit_group ::
  "(string \<Rightarrow> string \<Rightarrow> int) \<Rightarrow> (string \<times> jsval) list obj \<Rightarrow> string \<Rightarrow> string \<Rightarrow> error + string" where
  "emit_group lc groups pfx output =
     (case obj_get groups pfx of
        None \<Rightarrow> Inr output
      | Some g \<Rightarrow>
          (if g = [] then Inr output
           else
             (case sort_js (\<lambda>x y. sortVariables lc (fst x) (fst y) pfx) g of
                Inl e \<Rightarrow> Inl e
              | Inr entries \<Rightarrow>
                  Inr (output @
                       concat (map (\<lambda>e. decl_line ''    '' (fst e) (val_to_string (snd e))) entries) @
                       [CHR 0x0A]))))"

definition mode_prefixes :: "string list" where
  "mode_prefixes = [''surface'', ''text'', ''icon'', ''outline'']"

definition mode_groups :: "string obj \<Rightarrow> (string \<times> string) list obj" where
  "mode_groups table =
     fold (\<lambda>entry groups.
             case find (startsWith (fst entry)) mode_prefixes of
               None \<Rightarrow> groups
             | Some pfx \<Rightarrow> push_group pfx entry groups)
       table (map (\<lambda>p. (p, [])) mode_prefixes)"

text \<open>The loop over \<open>prefixOrder\<close>; the state is the text written and the flag \<open>isFirst\<close>.\<close>

definition emit_mode_group ::
  "(string \<Rightarrow> string \<Rightarrow> int) \<Rightarrow> string \<Rightarrow> (string \<times> string) list obj \<Rightarrow> string \<Rightarrow>
   string \<times> bool \<Rightarrow> string \<times> bool" where
  "emit_mode_group lc indent groups pfx st =
     (case obj_get groups pfx of
        None \<Rightarrow> st
      | Some g \<Rightarrow>
          (if g = [] then st
           else
             (fst st @ (if snd st then [] else [CHR 0x0A]) @
              concat (map (\<lambda>e. decl_line indent (fst e) (snd e))
                        (sort_by (\<lambda>x y. sortModeVariables lc (fst x) (fst y)) g)),
              False)))"

definition emit_modes :: "(string \<Rightarrow> string \<Rightarrow> int) \<Rightarrow> string \<Rightarrow> string obj \<Rightarrow> string" where
  "emit_modes lc indent table =
     fst (fold (emit_mode_group lc indent (mode_groups table)) mode_prefixes ([], True))"

definition generateOutput :: "(string \<Rightarrow> string \<Rightarrow> int) \<Rightarrow> ProcessedResult \<Rightarrow> error + string" where
  "generateOutput lc processed =
     (case fold_err (emit_group lc (group_primitives (primitives processed)))
             (finalGroupOrder (obj_keys (primitives processed)))
             (''@layer globals {'' @ [CHR 0x0A] @ ''  :root {'' @ [CHR 0x0A]) of
        Inl e \<Rightarrow> Inl e
      | Inr out1 \<Rightarrow>
          Inr (out1 @
               (if lightMode processed \<noteq> [] then emit_modes lc ''    '' (lightMode processed)
                else []) @
               ''  }'' @ [CHR 0x0A] @
               (if darkMode processed \<noteq> [] then
                  [CHR 0x0A] @ ''  @media (prefers-color-scheme: dark) {'' @ [CHR 0x0A] @
                  ''    :root {'' @ [CHR 0x0A] @
                  emit_modes lc ''      '' (darkMode processed) @
                  [CHR 0x0A] @ ''    }'' @ [CHR 0x0A] @ ''  }'' @ [CHR 0x0A]
                else []) @
               ''}'' @ [CHR 0x0A]))"

section \<open>The transformation\<close>

text \<open>
  \<open>transformCSS\<close> without the file system: from the text of the input file to the text
  of the output file, or the exception that the source catches to end the process
  without writing a file.
\<close>

definition transformCSS :: "(string \<Rightarrow> string \<Rightarrow> int) \<Rightarrow> string \<Rightarrow> error + string" where
  "transformCSS lc originalCSS =
     (case processVariables (parseVariables originalCSS) originalCSS of
        Inl e \<Rightarrow> Inl e
      | Inr processed \<Rightarrow> generateOutput lc processed)"

section \<open>Example inputs\<close>

text \<open>The texts on which the concrete statements below run the transformation.\<close>

definition clamp_css :: string where
  "clamp_css =
     ''--viewport-min-width: \"320\";\<newline>--viewport-max-width: \"1280\";\<newline>--font-size-min-step-0-rem: 1.125rem;\<newline>--font-size-max-step-0-rem: 1.25rem;\<newline>''"

definition nan_css :: string where
  "nan_css =
     ''--viewport-min-width: \"abc\";\<newline>--viewport-max-width: \"1280\";\<newline>--font-size-min-step-0-rem: 1.125rem;\<newline>--font-size-max-step-0-rem: 1.25rem;\<newline>''"

definition no_viewport_css :: string where
  "no_viewport_css = ''--viewport-max-width: \"1280\";\<newline>--spacing-1: 4px;\<newline>''"





definition color_css :: string where
  "color_css =
     ''--viewport-min-width: \"320\";\<newline>--viewport-max-width: \"1280\";\<newline>--spacing-1: 4px;\<newline>--color-zeta-500: #111111;\<newline>--color-brand-500: #222222;\<newline>--color-accent-500: #333333;\<newline>--color-brand-100: #444444;\<newline>--color-default-50: #fafafa;\<newline>''"

definition color_tables :: ProcessedResult where
  "color_tables =
     \<lparr>primitives =
        [(''spacing-1'', Str ''4px''), (''color-zeta-500'', Str ''#111111''),
         (''color-brand-500'', Str ''#222222''), (''color-accent-500'', Str ''#333333''),
         (''color-brand-100'', Str ''#444444''), (''color-default-50'', Str ''#fafafa'')],
      lightMode = [], darkMode = []\<rparr>"

section \<open>Properties of name simplification\<close>

lemma startsWith_Cons [simp]:
  "startsWith (c # s) (d # p) \<longleftrightarrow> c = d \<and> startsWith s p"
  "startsWith s []"
  "\<not> startsWith [] (d # p)"
  by (auto simp: startsWith_def)

lemma startsWith_conv: "startsWith s p \<longleftrightarrow> (\<exists>r. s = p @ r)"
  by (auto simp: startsWith_def prefix_def)

lemma startsWith_length: "startsWith s p \<Longrightarrow> length p \<le> length s"
  by (simp add: startsWith_def prefix_length_le)


lemma drop_neq: "0 < n \<Longrightarrow> n \<le> length r \<Longrightarrow> drop n r \<noteq> r"
proof
  assume a: "0 < n" "n \<le> length r" "drop n r = r"
  have "length (drop n r) = length r - n" by simp
  with a show False by simp
qed

lemma simplifyName_shape [case_names dborder dsize dsurface dtext dicon doutline tfont other]:
  assumes "\<And>r. name = ''border-border-'' @ r \<Longrightarrow> simplifyName name = ''border-'' @ r \<Longrightarrow> P"
    and "\<And>r. name = ''size-size-'' @ r \<Longrightarrow> simplifyName name = ''size-'' @ r \<Longrightarrow> P"
    and "\<And>r. name = ''surface-surface-'' @ r \<Longrightarrow> simplifyName name = ''surface-'' @ r \<Longrightarrow> P"
    and "\<And>r. name = ''text-text-'' @ r \<Longrightarrow> simplifyName name = ''text-'' @ r \<Longrightarrow> P"
    and "\<And>r. name = ''icon-icon-'' @ r \<Longrightarrow> simplifyName name = ''icon-'' @ r \<Longrightarrow> P"
    and "\<And>r. name = ''outline-outline-'' @ r \<Longrightarrow> simplifyName name = ''outline-'' @ r \<Longrightarrow> P"
    and "\<And>r. name = ''typography-font-'' @ r \<Longrightarrow> simplifyName name = ''font-family-'' @ r \<Longrightarrow> P"
    and "\<not> startsWith name ''border-border-'' \<Longrightarrow> \<not> startsWith name ''size-size-'' \<Longrightarrow>
         \<not> startsWith name ''surface-surface-'' \<Longrightarrow> \<not> startsWith name ''text-text-'' \<Longrightarrow>
         \<not> startsWith name ''icon-icon-'' \<Longrightarrow> \<not> startsWith name ''outline-outline-'' \<Longrightarrow>
         \<not> startsWith name ''typography-font-'' \<Longrightarrow> simplifyName name = name \<Longrightarrow> P"
  shows P
proof -
  consider
    (c1) r where "name = ''border-border-'' @ r"
  | (c2) r where "name = ''size-size-'' @ r"
  | (c3) r where "name = ''surface-surface-'' @ r"
  | (c4) r where "name = ''text-text-'' @ r"
  | (c5) r where "name = ''icon-icon-'' @ r"
  | (c6) r where "name = ''outline-outline-'' @ r"
  | (c7) r where "name = ''typography-font-'' @ r"
  | (c8) "\<not> startsWith name ''border-border-''" "\<not> startsWith name ''size-size-''"
      "\<not> startsWith name ''surface-surface-''" "\<not> startsWith name ''text-text-''"
      "\<not> startsWith name ''icon-icon-''" "\<not> startsWith name ''outline-outline-''"
      "\<not> startsWith name ''typography-font-''"
    unfolding startsWith_conv by blast
  then show P
  proof cases
    case c1
    then show P using assms(1) by (simp add: simplifyName_def replace_prefix_def)
  next
    case c2
    then show P using assms(2) by (simp add: simplifyName_def replace_prefix_def)
  next
    case c3
    then show P using assms(3) by (simp add: simplifyName_def replace_prefix_def)
  next
    case c4
    then show P using assms(4) by (simp add: simplifyName_def replace_prefix_def)
  next
    case c5
    then show P using assms(5) by (simp add: simplifyName_def replace_prefix_def)
  next
    case c6
    then show P using assms(6) by (simp add: simplifyName_def replace_prefix_def)
  next
    case c7
    then show P using assms(7) by (simp add: simplifyName_def replace_prefix_def)
  next
    case c8
    then have "simplifyName name = name"
      by (simp add: simplifyName_def replace_prefix_def)
    with c8 show P using assms(8) by simp
  qed
qed

lemma dup_step:
  assumes "simplifyName name = p @ r"
    and "simplifyName (p @ r) = (if startsWith r p then p @ drop (length p) r else p @ r)"
    and "tripled name \<longleftrightarrow> startsWith r p"
    and "p \<noteq> []"
  shows "simplifyName (simplifyName name) = simplifyName name \<longleftrightarrow> \<not> tripled name"
proof (cases "startsWith r p")
  case True
  then have "drop (length p) r \<noteq> r"
    using assms(4) by (intro drop_neq) (simp_all add: startsWith_length)
  with True assms show ?thesis by simp
next
  case False
  with assms show ?thesis by simp
qed

section \<open>C4: idempotence of name simplification\<close>

text \<open>
  Counterexample to C4 as stated: a name that starts with a prefix three times loses
  one copy on each application, so the second application changes the result of the
  first.
\<close>

theorem simplifyName_not_idempotent:
  "simplifyName (simplifyName ''border-border-border-x'') \<noteq>
   simplifyName ''border-border-border-x''"
  by (simp add: simplifyName_def replace_prefix_def)

text \<open>
  C4 (amended): \<open>simplifyName (simplifyName x) = simplifyName x\<close> holds exactly for the
  names \<open>x\<close> that do not start with one of the six doubled prefixes written three
  times (\<open>border-border-border-\<close>, \<open>size-size-size-\<close>, ...).
\<close>

theorem simplifyName_idempotent_iff: "simplifyName (simplifyName name) = simplifyName name \<longleftrightarrow> \<not> tripled name"
proof (cases name rule: simplifyName_shape)
  case (dborder r)
  show ?thesis
    by (rule dup_step [where p = "''border-''" and r = r])
      (simp_all add: dborder simplifyName_def replace_prefix_def tripled_def doubled_prefixes_def)
next
  case (dsize r)
  show ?thesis
    by (rule dup_step [where p = "''size-''" and r = r])
      (simp_all add: dsize simplifyName_def replace_prefix_def tripled_def doubled_prefixes_def)
next
  case (dsurface r)
  show ?thesis
    by (rule dup_step [where p = "''surface-''" and r = r])
      (simp_all add: dsurface simplifyName_def replace_prefix_def tripled_def doubled_prefixes_def)
next
  case (dtext r)
  show ?thesis
    by (rule dup_step [where p = "''text-''" and r = r])
      (simp_all add: dtext simplifyName_def replace_prefix_def tripled_def doubled_prefixes_def)
next
  case (dicon r)
  show ?thesis
    by (rule dup_step [where p = "''icon-''" and r = r])
      (simp_all add: dicon simplifyName_def replace_prefix_def tripled_def doubled_prefixes_def)
next
  case (doutline r)
  show ?thesis
    by (rule dup_step [where p = "''outline-''" and r = r])
      (simp_all add: doutline simplifyName_def replace_prefix_def tripled_def doubled_prefixes_def)
next
  case (tfont r)
  show ?thesis
    by (simp add: tfont simplifyName_def replace_prefix_def tripled_def doubled_prefixes_def)
next
  case other
  then have "\<not> tripled name"
    by (auto simp: tripled_def doubled_prefixes_def startsWith_conv)
  with other show ?thesis by simp
qed

theorem simplifyName_idempotent_iff_witness:
  "simplifyName (simplifyName ''border-border-xs'') = simplifyName ''border-border-xs'' \<and>
   \<not> tripled ''border-border-xs''"
  using simplifyName_idempotent_iff [of "''border-border-xs''"]
  by (simp add: tripled_def doubled_prefixes_def)

section \<open>C10: a bound that parses to zero\<close>









section \<open>C6: the numbering of the steps\<close>


lemma find_step0_none:
  "\<forall>s \<in> set us. originalStep s \<noteq> 0 \<Longrightarrow> find_step0 i us = - 1"
  by (induction us arbitrary: i) simp_all

text \<open>
  The last loop of \<open>processFontSizes\<close> names the step at index \<open>j\<close> after
  \<open>outputStep step0Index j\<close>.
\<close>

lemma emit_steps_fold:
  "emit_steps mn mx k i us fs =
     fold (\<lambda>(j, d) acc.
             case step_value mn mx d of
               None \<Rightarrow> acc
             | Some v \<Rightarrow> obj_set (''font-size-step-'' @ int_to_string (outputStep k j d)) v acc)
       (zip (map (\<lambda>n. i + int n) [0..<length us]) us) fs"
proof (induction us arbitrary: i fs)
  case Nil
  show ?case by simp
next
  case (Cons d us)
  have shift: "map (\<lambda>n. i + int n) [0..<Suc (length us)] =
      i # map (\<lambda>n. (i + 1) + int n) [0..<length us]"
    by (simp add: upt_conv_Cons map_Suc_upt [symmetric] del: upt_Suc)
  show ?case
    by (simp add: Cons.IH shift del: upt_Suc)
qed



section \<open>C2: the clamp for the viewport 320 to 1280\<close>













section \<open>C3: the viewport widths\<close>

lemma error_is_TypeError: "(e :: error) = TypeError"
  by (cases e) simp

lemma processFontSizes_absent:
  "obj_get variables ''viewport-min-width'' = None \<or>
   obj_get variables ''viewport-max-width'' = None \<Longrightarrow>
   processFontSizes variables css = Inl TypeError"
  by (auto simp: processFontSizes_def split: option.splits)

lemma processVariables_absent:
  assumes "obj_get variables ''viewport-min-width'' = None \<or>
           obj_get variables ''viewport-max-width'' = None"
  shows "processVariables variables css = Inl TypeError"
proof (cases "fold_err (fallback_step variables
    (snd (fold (rem_step variables) variables ([], {})))) variables
    (fst (fold (rem_step variables) variables ([], {})))")
  case (Inl e)
  then show ?thesis
    by (simp add: processVariables_def Let_def error_is_TypeError [of e])
next
  case (Inr prims)
  then show ?thesis
    using processFontSizes_absent [OF assms, of css]
    by (simp add: processVariables_def Let_def)
qed

lemma processFontSizes_present:
  "obj_get variables ''viewport-min-width'' = Some minText \<Longrightarrow>
   obj_get variables ''viewport-max-width'' = Some maxText \<Longrightarrow>
   \<exists>fontSizes. processFontSizes variables css = Inr fontSizes"
  by (simp add: processFontSizes_def Let_def)

lemma nan_css_run:
  "transformCSS (\<lambda>a b. 0) nan_css =
   Inr ''@layer globals {\<newline>  :root {\<newline>    --font-size-step-0: clamp(1.125rem, NaNrem + NaNvw, 1.25rem);\<newline>\<newline>  }\<newline>}\<newline>''"
  by code_simp

text \<open>
  Counterexample to C3 as stated: with the value \<open>"abc"\<close> for \<open>viewport-min-width\<close>
  the transformation does not fail; it writes a \<open>clamp\<close> with the coefficients
  \<open>NaN\<close>.
\<close>

theorem non_numeric_viewport_does_not_fail:
  "obj_get (parseVariables nan_css) ''viewport-min-width'' =
     Some [CHR 0x22, CHR ''a'', CHR ''b'', CHR ''c'', CHR 0x22] \<and>
   transformCSS (\<lambda>a b. 0) nan_css =
     Inr ''@layer globals {\<newline>  :root {\<newline>    --font-size-step-0: clamp(1.125rem, NaNrem + NaNvw, 1.25rem);\<newline>\<newline>  }\<newline>}\<newline>''"
proof -
  have "obj_get (parseVariables nan_css) ''viewport-min-width'' =
     Some [CHR 0x22, CHR ''a'', CHR ''b'', CHR ''c'', CHR 0x22]"
    by code_simp
  then show ?thesis by (simp add: nan_css_run)
qed

text \<open>
  C3 (amended): when the raw table lacks \<open>viewport-min-width\<close> or
  \<open>viewport-max-width\<close> the whole transformation fails with the one exception and
  writes no text; when both are present, whatever their values, the typography stage
  returns its table (a value that is not numeric is read as \<open>NaN\<close> and does not
  fail).
\<close>

theorem viewport_absent_fails:
  "(obj_get (parseVariables css) ''viewport-min-width'' = None \<or>
    obj_get (parseVariables css) ''viewport-max-width'' = None \<longrightarrow>
      transformCSS lc css = Inl TypeError) \<and>
   (obj_get (parseVariables css) ''viewport-min-width'' = Some minText \<and>
    obj_get (parseVariables css) ''viewport-max-width'' = Some maxText \<longrightarrow>
      (\<exists>fontSizes. processFontSizes (parseVariables css) css = Inr fontSizes))"
  by (auto simp: transformCSS_def processVariables_absent dest: processFontSizes_present)

theorem viewport_absent_fails_witness:
  "transformCSS (\<lambda>a b. 0) no_viewport_css = Inl TypeError \<and>
   (\<exists>fontSizes. processFontSizes (parseVariables clamp_css) clamp_css = Inr fontSizes)"
proof -
  have a: "obj_get (parseVariables no_viewport_css) ''viewport-min-width'' = None"
    by code_simp
  have b: "obj_get (parseVariables clamp_css) ''viewport-min-width'' =
      Some [CHR 0x22, CHR ''3'', CHR ''2'', CHR ''0'', CHR 0x22]"
    by code_simp
  have c: "obj_get (parseVariables clamp_css) ''viewport-max-width'' =
      Some [CHR 0x22, CHR ''1'', CHR ''2'', CHR ''8'', CHR ''0'', CHR 0x22]"
    by code_simp
  show ?thesis
    using viewport_absent_fails [where css = no_viewport_css and lc = "\<lambda>a b. 0"
        and minText = "[]" and maxText = "[]"]
      viewport_absent_fails [where css = clamp_css and lc = "\<lambda>a b. 0"
        and minText = "[CHR 0x22, CHR ''3'', CHR ''2'', CHR ''0'', CHR 0x22]"
        and maxText = "[CHR 0x22, CHR ''1'', CHR ''2'', CHR ''8'', CHR ''0'', CHR 0x22]"] a b c
    by simp
qed

section \<open>Tables\<close>

lemma obj_get_set: "obj_get (obj_set k v t) k' = (if k' = k then Some v else obj_get t k')"
  by (induction t) (auto simp: obj_get_def)



section \<open>Loops\<close>

lemma fold_preserve:
  assumes "P s" and "\<And>e s. e \<in> set es \<Longrightarrow> P s \<Longrightarrow> P (f e s)"
  shows "P (fold f es s)"
  using assms
proof (induction es arbitrary: s)
  case Nil
  then show ?case by simp
next
  case (Cons x xs)
  have "P (f x s)" using Cons.prems(2) [of x s] Cons.prems(1) by simp
  moreover have "P (f e s0)" if "e \<in> set xs" "P s0" for e s0
    using Cons.prems(2) [of e s0] that by simp
  ultimately have "P (fold f xs (f x s))" by (rule Cons.IH)
  then show ?case by simp
qed

lemma fold_establish:
  assumes "e0 \<in> set es" and "\<And>s. P (f e0 s)"
    and "\<And>e s. e \<in> set es \<Longrightarrow> P s \<Longrightarrow> P (f e s)"
  shows "P (fold f es s)"
  using assms
proof (induction es arbitrary: s)
  case Nil
  then show ?case by simp
next
  case (Cons x xs)
  have rest: "P (f e s0)" if "e \<in> set xs" "P s0" for e s0
    using Cons.prems(3) [of e s0] that by simp
  show ?case
  proof (cases "e0 \<in> set xs")
    case True
    have "P (fold f xs (f x s))"
      by (rule Cons.IH [OF True Cons.prems(2) rest])
    then show ?thesis by simp
  next
    case False
    with Cons.prems(1) have "x = e0" by simp
    then have "P (f x s)" using Cons.prems(2) by simp
    then have "P (fold f xs (f x s))"
      by (rule fold_preserve [where P = P and f = f and es = xs]) (rule rest)
    then show ?thesis by simp
  qed
qed



section \<open>Suffixes\<close>


lemma light_not_dark: "endsWith n ''-dark-mode'' \<Longrightarrow> \<not> endsWith n ''-light-mode''"
proof
  assume "endsWith n ''-dark-mode''" "endsWith n ''-light-mode''"
  then have "suffix ''-dark-mode'' ''-light-mode'' \<or> suffix ''-light-mode'' ''-dark-mode''"
    unfolding endsWith_def by (rule suffix_same_cases)
  then show False
    by (simp add: suffix_to_prefix)
qed

section \<open>Mode separation\<close>

lemma mode_step_light:
  "endsWith n ''-light-mode'' \<Longrightarrow>
   mode_step (n, v) r =
     r\<lparr>lightMode := obj_set (simplifyName (strip_suffix ''-light-mode'' n))
                       (simplifyVariableReferences v) (lightMode r)\<rparr>"
  by (simp add: mode_step_def)

lemma mode_step_dark:
  "endsWith n ''-dark-mode'' \<Longrightarrow>
   mode_step (n, v) r =
     r\<lparr>darkMode := obj_set (simplifyName (strip_suffix ''-dark-mode'' n))
                      (simplifyVariableReferences v) (darkMode r)\<rparr>"
  by (simp add: mode_step_def light_not_dark)

lemma mode_step_other:
  "\<not> endsWith n ''-light-mode'' \<Longrightarrow> \<not> endsWith n ''-dark-mode'' \<Longrightarrow> mode_step (n, v) r = r"
  by (simp add: mode_step_def)

lemma mode_step_lightMode:
  "lightMode (mode_step (n, v) r) =
     (if endsWith n ''-light-mode''
      then obj_set (simplifyName (strip_suffix ''-light-mode'' n))
             (simplifyVariableReferences v) (lightMode r)
      else lightMode r)"
  by (simp add: mode_step_def)

lemma mode_step_darkMode:
  "darkMode (mode_step (n, v) r) =
     (if endsWith n ''-dark-mode''
      then obj_set (simplifyName (strip_suffix ''-dark-mode'' n))
             (simplifyVariableReferences v) (darkMode r)
      else darkMode r)"
  by (auto simp: mode_step_def light_not_dark)

lemma processVariables_modes:
  assumes "processVariables variables css = Inr r"
  shows "lightMode r =
           lightMode (fold mode_step variables \<lparr>primitives = [], lightMode = [], darkMode = []\<rparr>)"
    and "darkMode r =
           darkMode (fold mode_step variables \<lparr>primitives = [], lightMode = [], darkMode = []\<rparr>)"
  using assms by (auto simp: processVariables_def Let_def split: sum.splits)

lemma light_stored:
  assumes "processVariables variables css = Inr r"
    and "(name, v) \<in> set variables" and "endsWith name ''-light-mode''"
    and "\<forall>(n', v') \<in> set variables.
           endsWith n' ''-light-mode'' \<and>
           simplifyName (strip_suffix ''-light-mode'' n') =
           simplifyName (strip_suffix ''-light-mode'' name) \<longrightarrow> v' = v"
  shows "obj_get (lightMode r) (simplifyName (strip_suffix ''-light-mode'' name)) =
         Some (simplifyVariableReferences v)"
proof -
  let ?k = "simplifyName (strip_suffix ''-light-mode'' name)"
  let ?P = "\<lambda>r. obj_get (lightMode r) ?k = Some (simplifyVariableReferences v)"
  have "?P (fold mode_step variables \<lparr>primitives = [], lightMode = [], darkMode = []\<rparr>)"
  proof (rule fold_establish [where ?e0.0 = "(name, v)"])
    show "(name, v) \<in> set variables" by fact
    show "?P (mode_step (name, v) s)" for s
      using assms(3) by (simp add: mode_step_lightMode obj_get_set)
    show "?P (mode_step e s)" if "e \<in> set variables" "?P s" for e s
    proof -
      obtain n' v' where e: "e = (n', v')" by (cases e)
      show ?thesis
        using that assms(4) unfolding e
        by (auto simp: mode_step_lightMode obj_get_set)
    qed
  qed
  then show ?thesis using processVariables_modes(1) [OF assms(1)] by simp
qed

lemma dark_stored:
  assumes "processVariables variables css = Inr r"
    and "(name, v) \<in> set variables" and "endsWith name ''-dark-mode''"
    and "\<forall>(n', v') \<in> set variables.
           endsWith n' ''-dark-mode'' \<and>
           simplifyName (strip_suffix ''-dark-mode'' n') =
           simplifyName (strip_suffix ''-dark-mode'' name) \<longrightarrow> v' = v"
  shows "obj_get (darkMode r) (simplifyName (strip_suffix ''-dark-mode'' name)) =
         Some (simplifyVariableReferences v)"
proof -
  let ?k = "simplifyName (strip_suffix ''-dark-mode'' name)"
  let ?P = "\<lambda>r. obj_get (darkMode r) ?k = Some (simplifyVariableReferences v)"
  have "?P (fold mode_step variables \<lparr>primitives = [], lightMode = [], darkMode = []\<rparr>)"
  proof (rule fold_establish [where ?e0.0 = "(name, v)"])
    show "(name, v) \<in> set variables" by fact
    show "?P (mode_step (name, v) s)" for s
      using assms(3) by (simp add: mode_step_darkMode obj_get_set)
    show "?P (mode_step e s)" if "e \<in> set variables" "?P s" for e s
    proof -
      obtain n' v' where e: "e = (n', v')" by (cases e)
      show ?thesis
        using that assms(4) unfolding e
        by (auto simp: mode_step_darkMode obj_get_set)
    qed
  qed
  then show ?thesis using processVariables_modes(2) [OF assms(1)] by simp
qed



section \<open>References\<close>

lemma match_var_None: "\<not> startsWith s ''var(--'' \<Longrightarrow> match_var s = None"
  by (simp add: match_var_def)

lemma replace_vars_id: "\<not> includes_str s ''var(--'' \<Longrightarrow> replace_vars s = s"
  by (induction s) (simp_all add: match_var_None)

lemma simplifyVariableReferences_eq: "simplifyVariableReferences v = replace_vars v"
  by (simp add: simplifyVariableReferences_def replace_vars_id)

lemma var_no_overlap:
  assumes "\<not> startsWith (c # pre) ''var(--''"
  shows "\<not> startsWith ((c # pre) @ ''var(--'' @ rest) ''var(--''"
proof
  assume "startsWith ((c # pre) @ ''var(--'' @ rest) ''var(--''"
  then have "prefix ''var(--'' (c # pre) \<or>
      (\<exists>us. ''var(--'' = (c # pre) @ us \<and> prefix us (''var(--'' @ rest))"
    unfolding startsWith_def prefix_append by simp
  then show False
  proof
    assume "prefix ''var(--'' (c # pre)"
    with assms show False by (simp add: startsWith_def)
  next
    assume "\<exists>us. ''var(--'' = (c # pre) @ us \<and> prefix us (''var(--'' @ rest)"
    then obtain us where us: "''var(--'' = (c # pre) @ us" "prefix us (''var(--'' @ rest)"
      by blast
    from us(1) have "us \<in> {''ar(--'', ''r(--'', ''(--'', ''--'', ''-'', []}"
      by (auto simp: Cons_eq_append_conv)
    with us show False
      using assms by (auto simp: startsWith_def)
  qed
qed

lemma takeWhile_until: "c \<notin> set X \<Longrightarrow> takeWhile (\<lambda>d. d \<noteq> c) (X @ c # post) = X"
  by (induction X) auto

lemma dropWhile_until: "c \<notin> set X \<Longrightarrow> dropWhile (\<lambda>d. d \<noteq> c) (X @ c # post) = c # post"
  by (induction X) auto

lemma match_var_ref:
  assumes "X \<noteq> []" and "CHR '')'' \<notin> set X"
  shows "match_var (''var(--'' @ X @ '')'' @ post) = Some (X, post)"
proof -
  have "takeWhile (\<lambda>c. c \<noteq> CHR '')'') (X @ '')'' @ post) = X"
    using assms(2) by (simp add: takeWhile_until)
  moreover have "dropWhile (\<lambda>c. c \<noteq> CHR '')'') (X @ '')'' @ post) = '')'' @ post"
    using assms(2) by (simp add: dropWhile_until)
  ultimately show ?thesis
    using assms(1) by (simp add: match_var_def Let_def)
qed

lemma replace_vars_ref:
  assumes "\<not> includes_str pre ''var(--''" and "X \<noteq> []" and "CHR '')'' \<notin> set X"
  shows "replace_vars (pre @ ''var(--'' @ X @ '')'' @ post) =
         pre @ ''var(--'' @ simplifyName X @ '')'' @ replace_vars post"
  using assms(1)
proof (induction pre)
  case Nil
  have "replace_vars (''var(--'' @ X @ '')'' @ post) =
      ''var(--'' @ simplifyName X @ '')'' @ replace_vars post"
    using match_var_ref [OF assms(2,3), of post] by simp
  then show ?case by simp
next
  case (Cons c pre)
  then have no: "\<not> startsWith (c # pre) ''var(--''" and rest: "\<not> includes_str pre ''var(--''"
    by simp_all
  have "match_var ((c # pre) @ ''var(--'' @ X @ '')'' @ post) = None"
    by (rule match_var_None) (rule var_no_overlap [OF no])
  then show ?case
    using Cons.IH [OF rest] by simp
qed

section \<open>The three loops over the raw table\<close>



section \<open>Facts about simplified names\<close>




lemma simplifyName_font_family: "startsWith n ''font-family-'' \<Longrightarrow> simplifyName n = n"
  by (cases n rule: simplifyName_shape) (auto simp: startsWith_conv)



section \<open>Where the keys of the result come from\<close>















section \<open>The final value of a key of primitives\<close>


lemma obj_get_in:
  "distinct (obj_keys es) \<Longrightarrow> (n, v) \<in> set es \<Longrightarrow> obj_get es n = Some v"
  by (simp add: obj_get_def obj_keys_def)














section \<open>C9: the pixel exceptions and the rem values\<close>











section \<open>C8: references to a font in the third loop\<close>



lemma typography_not_family:
  "startsWith n ''typography-font-'' \<Longrightarrow> \<not> startsWith n ''font-family-''"
  by (auto simp: startsWith_conv)









section \<open>C5: which table a name is written to\<close>



lemma set_obj_keys: "set (obj_keys es) = fst ` set es"
  by (simp add: obj_keys_def)




section \<open>Sorting keeps the elements\<close>

lemma mset_insort_js:
  "insort_js cmp x ys = Inr zs \<Longrightarrow> mset zs = add_mset x (mset ys)"
proof (induction ys arbitrary: zs)
  case Nil
  then show ?case by auto
next
  case (Cons y ys)
  then show ?case
    by (auto split: sum.splits if_splits)
qed

lemma mset_sort_js: "sort_js cmp xs = Inr ys \<Longrightarrow> mset ys = mset xs"
proof (induction xs arbitrary: ys)
  case Nil
  then show ?case by simp
next
  case (Cons x xs)
  then show ?case
    by (auto split: sum.splits dest: mset_insort_js)
qed

lemma mset_insort_by: "mset (insort_by cmp x ys) = add_mset x (mset ys)"
  by (induction ys) auto

lemma mset_sort_by: "mset (sort_by cmp xs) = mset xs"
  by (induction xs) (auto simp: mset_insort_by)

section \<open>Groups\<close>

lemma obj_get_push_group:
  "obj_get (push_group k x G) k' =
     (if k' = k then map_option (\<lambda>xs. xs @ [x]) (obj_get G k) else obj_get G k')"
  by (auto simp: push_group_def obj_get_set split: option.splits)

lemma find_in_set: "find P xs = Some x \<Longrightarrow> x \<in> set xs"
  by (induction xs) (auto split: if_splits)

lemma color_match_prefix: "color_match n = Some g \<Longrightarrow> startsWith g ''color-''"
  by (auto simp: color_match_def Let_def startsWith_conv split: if_splits)

lemma other_not_color: "pfx \<in> set otherGroupsOrder \<Longrightarrow> \<not> startsWith pfx ''color-''"
  by (auto simp: otherGroupsOrder_def)

lemma known_color: "g \<in> set knownColorOrder \<Longrightarrow> startsWith g ''color-''"
  by (auto simp: knownColorOrder_def)

lemma group_step_unfold:
  "group_step e G =
     (case (case color_match (fst e) of
              None \<Rightarrow> None
            | Some cp \<Rightarrow> (if obj_get G cp = None then None else Some cp)) of
        Some cp \<Rightarrow> push_group cp e G
      | None \<Rightarrow>
          (case find (startsWith (fst e)) otherGroupsOrder of
             None \<Rightarrow> G
           | Some pfx \<Rightarrow> push_group pfx e G))"
  unfolding group_step_def Let_def by (rule refl)

lemma group_step_get:
  assumes g: "startsWith g ''color-''" and G: "obj_get G g = Some xs"
  shows "obj_get (group_step e G) g =
           Some (if color_match (fst e) = Some g then xs @ [e] else xs)"
proof (cases "color_match (fst e)")
  case None
  show ?thesis
  proof (cases "find (startsWith (fst e)) otherGroupsOrder")
    case n: None
    with None G show ?thesis by (simp add: group_step_unfold)
  next
    case (Some pfx)
    then have "pfx \<in> set otherGroupsOrder" by (rule find_in_set)
    then have "\<not> startsWith pfx ''color-''" by (rule other_not_color)
    with g have "pfx \<noteq> g" by auto
    with None Some G show ?thesis
      by (simp add: group_step_unfold obj_get_push_group)
  qed
next
  case (Some cp)
  show ?thesis
  proof (cases "cp = g")
    case True
    with Some G show ?thesis
      by (simp add: group_step_unfold obj_get_push_group)
  next
    case False
    show ?thesis
    proof (cases "obj_get G cp = None")
      case t: True
      show ?thesis
      proof (cases "find (startsWith (fst e)) otherGroupsOrder")
        case None
        with Some False t G show ?thesis by (simp add: group_step_unfold)
      next
        case s: (Some pfx)
        then have "pfx \<in> set otherGroupsOrder" by (rule find_in_set)
    then have "\<not> startsWith pfx ''color-''" by (rule other_not_color)
    with g have "pfx \<noteq> g" by auto
        with Some False t s G show ?thesis
          by (simp add: group_step_unfold obj_get_push_group)
      qed
    next
      case f: False
      with Some False G show ?thesis
        by (auto simp: group_step_unfold obj_get_push_group)
    qed
  qed
qed

lemma fold_group_step_get:
  assumes g: "startsWith g ''color-''"
  shows "obj_get G g = Some xs \<Longrightarrow>
         obj_get (fold group_step es G) g =
           Some (xs @ filter (\<lambda>e. color_match (fst e) = Some g) es)"
proof (induction es arbitrary: G xs)
  case Nil
  then show ?case by simp
next
  case (Cons e es)
  from group_step_get [OF g Cons.prems, of e]
  have "obj_get (fold group_step es (group_step e G)) g =
      Some ((if color_match (fst e) = Some g then xs @ [e] else xs) @
            filter (\<lambda>e. color_match (fst e) = Some g) es)"
    by (rule Cons.IH)
  then show ?case by simp
qed

lemma fold_obj_set_empty:
  "obj_get (fold (\<lambda>pfx. obj_set pfx []) ps G) g =
     (if g \<in> set ps then Some [] else obj_get G g)"
  by (induction ps arbitrary: G) (auto simp: obj_get_set)

lemma initial_groups_get:
  "g \<in> set knownColorOrder \<union> set otherGroupsOrder \<union> set (newColorGroups names) \<Longrightarrow>
   obj_get (initial_groups names) g = Some []"
  by (auto simp: initial_groups_def fold_obj_set_empty)

lemma color_group_get:
  assumes "g \<in> set knownColorOrder \<union> set (newColorGroups (obj_keys prims))"
    and "startsWith g ''color-''"
  shows "obj_get (group_primitives prims) g =
           Some (filter (\<lambda>e. color_match (fst e) = Some g) prims)"
proof -
  have "obj_get (initial_groups (obj_keys prims)) g = Some []"
    using assms(1) by (intro initial_groups_get) auto
  from fold_group_step_get [OF assms(2) this, of prims]
  show ?thesis by (simp add: group_primitives_def)
qed

section \<open>The detected colour families\<close>

lemma set_fold_detect:
  "set (fold (\<lambda>name acc. case color_match name of None \<Rightarrow> acc | Some g \<Rightarrow> set_add g acc)
          names acc) =
     set acc \<union> {g. \<exists>n \<in> set names. color_match n = Some g}"
  by (induction names arbitrary: acc) (auto simp: set_add_def split: option.splits)

lemma distinct_fold_detect:
  "distinct acc \<Longrightarrow>
   distinct (fold (\<lambda>name acc. case color_match name of None \<Rightarrow> acc | Some g \<Rightarrow> set_add g acc)
          names acc)"
  by (induction names arbitrary: acc) (auto simp: set_add_def split: option.splits)

lemma set_detectedColorGroups:
  "set (detectedColorGroups names) = {g. \<exists>n \<in> set names. color_match n = Some g}"
  by (simp add: detectedColorGroups_def set_fold_detect)

lemma distinct_detectedColorGroups: "distinct (detectedColorGroups names)"
  by (simp add: detectedColorGroups_def distinct_fold_detect)

lemma newColorGroups_props:
  "sorted (newColorGroups names)" "distinct (newColorGroups names)"
  "set (newColorGroups names) =
     {g. \<exists>n \<in> set names. color_match n = Some g} - set knownColorOrder"
  by (auto simp: newColorGroups_def set_detectedColorGroups distinct_detectedColorGroups)

lemma new_group_color:
  "g \<in> set (newColorGroups names) \<Longrightarrow> startsWith g ''color-''"
  using color_match_prefix by (auto simp: newColorGroups_props(3))

lemma new_group_nonempty:
  assumes "g \<in> set (newColorGroups (obj_keys prims))"
  shows "filter (\<lambda>e. color_match (fst e) = Some g) prims \<noteq> []"
proof -
  from assms obtain n where "n \<in> set (obj_keys prims)" "color_match n = Some g"
    by (auto simp: newColorGroups_props(3))
  then obtain e where "e \<in> set prims" "color_match (fst e) = Some g"
    by (auto simp: obj_keys_def)
  then show ?thesis
    by (auto simp: filter_empty_conv)
qed

section \<open>Writing the groups\<close>

lemma fold_err_append:
  "fold_err f (xs @ ys) s =
     (case fold_err f xs s of Inl e \<Rightarrow> Inl e | Inr s' \<Rightarrow> fold_err f ys s')"
  by (induction xs arbitrary: s) (auto split: sum.splits)

lemma emit_group_append:
  "emit_group lc G pfx out =
     (case emit_group lc G pfx [] of Inl e \<Rightarrow> Inl e | Inr b \<Rightarrow> Inr (out @ b))"
  by (auto simp: emit_group_def split: option.splits sum.splits)

lemma fold_emit_group_blocks:
  "fold_err (emit_group lc G) ps out = Inr out' \<Longrightarrow>
   \<exists>bs. list_all2 (\<lambda>g b. emit_group lc G g [] = Inr b) ps bs \<and> out' = out @ concat bs"
proof (induction ps arbitrary: out)
  case Nil
  then show ?case by simp
next
  case (Cons p ps)
  from Cons.prems obtain s where s: "emit_group lc G p out = Inr s"
    and rest: "fold_err (emit_group lc G) ps s = Inr out'"
    by (auto split: sum.splits)
  from s obtain b where b: "emit_group lc G p [] = Inr b" "s = out @ b"
    by (subst (asm) emit_group_append) (auto split: sum.splits)
  from Cons.IH [OF rest] obtain bs where
    bs: "list_all2 (\<lambda>g b. emit_group lc G g [] = Inr b) ps bs" "out' = s @ concat bs"
    by blast
  have "list_all2 (\<lambda>g b. emit_group lc G g [] = Inr b) (p # ps) (b # bs)"
    using b(1) bs(1) by simp
  moreover have "out' = out @ concat (b # bs)"
    using b(2) bs(2) by simp
  ultimately show ?case by blast
qed

lemma emit_group_block:
  assumes "emit_group lc G g [] = Inr b" and "obj_get G g = Some es" and "es \<noteq> []"
  shows "\<exists>ss. sort_js (\<lambda>x y. sortVariables lc (fst x) (fst y) g) es = Inr ss \<and>
              b = concat (map (\<lambda>e. decl_line ''    '' (fst e) (val_to_string (snd e))) ss) @
                  [CHR 0x0A]"
  using assms by (auto simp: emit_group_def split: sum.splits)

lemma new_group_block:
  assumes g: "g \<in> set (newColorGroups (obj_keys prims))"
    and b: "emit_group lc (group_primitives prims) g [] = Inr b"
  shows "\<exists>ss. sort_js (\<lambda>x y. sortVariables lc (fst x) (fst y) g)
                (filter (\<lambda>e. color_match (fst e) = Some g) prims) = Inr ss \<and>
              mset ss = mset (filter (\<lambda>e. color_match (fst e) = Some g) prims) \<and>
              ss \<noteq> [] \<and>
              b = concat (map (\<lambda>e. decl_line ''    '' (fst e) (val_to_string (snd e))) ss) @
                  [CHR 0x0A]"
proof -
  let ?es = "filter (\<lambda>e. color_match (fst e) = Some g) prims"
  have c: "startsWith g ''color-''" using g by (rule new_group_color)
  have get: "obj_get (group_primitives prims) g = Some ?es"
    using g c by (intro color_group_get) simp_all
  have ne: "?es \<noteq> []" using g by (rule new_group_nonempty)
  from emit_group_block [OF b get ne] obtain ss where
    ss: "sort_js (\<lambda>x y. sortVariables lc (fst x) (fst y) g) ?es = Inr ss"
      "b = concat (map (\<lambda>e. decl_line ''    '' (fst e) (val_to_string (snd e))) ss) @ [CHR 0x0A]"
    by blast
  have m: "mset ss = mset ?es" using ss(1) by (rule mset_sort_js)
  have "ss \<noteq> []"
  proof
    assume "ss = []"
    with m have "mset ?es = {#}" by simp
    then have "?es = []" by (simp only: mset_zero_iff)
    with ne show False ..
  qed
  with ss m show ?thesis by blast
qed

lemma generateOutput_groups:
  assumes "generateOutput lc p = Inr out"
  shows "\<exists>out1 rest.
           fold_err (emit_group lc (group_primitives (primitives p)))
             (knownColorOrder @ newColorGroups (obj_keys (primitives p)) @ otherGroupsOrder)
             (''@layer globals {'' @ [CHR 0x0A] @ ''  :root {'' @ [CHR 0x0A]) = Inr out1 \<and>
           out = out1 @ rest"
  using assms by (auto simp: generateOutput_def finalGroupOrder_def split: sum.splits)

section \<open>C7: the place of a new colour family\<close>

theorem new_color_groups_between:
  assumes out: "generateOutput lc p = Inr out"
  shows "sorted (newColorGroups (obj_keys (primitives p))) \<and>
         distinct (newColorGroups (obj_keys (primitives p))) \<and>
         set (newColorGroups (obj_keys (primitives p))) =
           {g. \<exists>n \<in> set (obj_keys (primitives p)). color_match n = Some g} - set knownColorOrder \<and>
         (\<exists>kbs nbs obs rest.
            list_all2 (\<lambda>g b. emit_group lc (group_primitives (primitives p)) g [] = Inr b)
              knownColorOrder kbs \<and>
            list_all2
              (\<lambda>g b. \<exists>ss.
                 sort_js (\<lambda>x y. sortVariables lc (fst x) (fst y) g)
                   (filter (\<lambda>e. color_match (fst e) = Some g) (primitives p)) = Inr ss \<and>
                 mset ss = mset (filter (\<lambda>e. color_match (fst e) = Some g) (primitives p)) \<and>
                 ss \<noteq> [] \<and>
                 b = concat (map (\<lambda>e. decl_line ''    '' (fst e) (val_to_string (snd e))) ss) @
                     [CHR 0x0A])
              (newColorGroups (obj_keys (primitives p))) nbs \<and>
            list_all2 (\<lambda>g b. emit_group lc (group_primitives (primitives p)) g [] = Inr b)
              otherGroupsOrder obs \<and>
            out = ''@layer globals {'' @ [CHR 0x0A] @ ''  :root {'' @ [CHR 0x0A] @
                  concat kbs @ concat nbs @ concat obs @ rest)"
proof -
  let ?G = "group_primitives (primitives p)"
  let ?new = "newColorGroups (obj_keys (primitives p))"
  let ?hdr = "''@layer globals {'' @ [CHR 0x0A] @ ''  :root {'' @ [CHR 0x0A]"
  let ?E = "\<lambda>g b. emit_group lc ?G g [] = Inr b"
  from generateOutput_groups [OF out] obtain out1 rest where
    f: "fold_err (emit_group lc ?G) (knownColorOrder @ ?new @ otherGroupsOrder) ?hdr = Inr out1"
    and o: "out = out1 @ rest"
    by blast
  from fold_emit_group_blocks [OF f] obtain bs where
    bs: "list_all2 ?E (knownColorOrder @ ?new @ otherGroupsOrder) bs" "out1 = ?hdr @ concat bs"
    by blast
  from bs(1) obtain kbs bs' where
    k: "bs = kbs @ bs'" "list_all2 ?E knownColorOrder kbs" "list_all2 ?E (?new @ otherGroupsOrder) bs'"
    unfolding list_all2_append1 by blast
  from k(3) obtain nbs obs where
    n: "bs' = nbs @ obs" "list_all2 ?E ?new nbs" "list_all2 ?E otherGroupsOrder obs"
    unfolding list_all2_append1 by blast
  have nb: "list_all2
              (\<lambda>g b. \<exists>ss.
                 sort_js (\<lambda>x y. sortVariables lc (fst x) (fst y) g)
                   (filter (\<lambda>e. color_match (fst e) = Some g) (primitives p)) = Inr ss \<and>
                 mset ss = mset (filter (\<lambda>e. color_match (fst e) = Some g) (primitives p)) \<and>
                 ss \<noteq> [] \<and>
                 b = concat (map (\<lambda>e. decl_line ''    '' (fst e) (val_to_string (snd e))) ss) @
                     [CHR 0x0A])
              ?new nbs"
    using n(2)
  proof (rule list.rel_mono_strong)
    fix g b assume "g \<in> set ?new" "b \<in> set nbs" "emit_group lc ?G g [] = Inr b"
    then have "g \<in> set ?new" "emit_group lc ?G g [] = Inr b" by simp_all
    then show "\<exists>ss.
                 sort_js (\<lambda>x y. sortVariables lc (fst x) (fst y) g)
                   (filter (\<lambda>e. color_match (fst e) = Some g) (primitives p)) = Inr ss \<and>
                 mset ss = mset (filter (\<lambda>e. color_match (fst e) = Some g) (primitives p)) \<and>
                 ss \<noteq> [] \<and>
                 b = concat (map (\<lambda>e. decl_line ''    '' (fst e) (val_to_string (snd e))) ss) @
                     [CHR 0x0A]"
      by (rule new_group_block)
  qed
  have eq: "out = ?hdr @ concat kbs @ concat nbs @ concat obs @ rest"
    using o bs(2) k(1) n(1) by simp
  have eq': "out = ''@layer globals {'' @ [CHR 0x0A] @ ''  :root {'' @ [CHR 0x0A] @
                  concat kbs @ concat nbs @ concat obs @ rest"
    using eq by simp
  show ?thesis
  proof (intro conjI)
    show "sorted ?new" by (rule newColorGroups_props)
    show "distinct ?new" by (rule newColorGroups_props)
    show "set ?new =
        {g. \<exists>n \<in> set (obj_keys (primitives p)). color_match n = Some g} - set knownColorOrder"
      by (rule newColorGroups_props)
    have "list_all2 ?E knownColorOrder kbs \<and>
            list_all2
              (\<lambda>g b. \<exists>ss.
                 sort_js (\<lambda>x y. sortVariables lc (fst x) (fst y) g)
                   (filter (\<lambda>e. color_match (fst e) = Some g) (primitives p)) = Inr ss \<and>
                 mset ss = mset (filter (\<lambda>e. color_match (fst e) = Some g) (primitives p)) \<and>
                 ss \<noteq> [] \<and>
                 b = concat (map (\<lambda>e. decl_line ''    '' (fst e) (val_to_string (snd e))) ss) @
                     [CHR 0x0A])
              ?new nbs \<and>
            list_all2 ?E otherGroupsOrder obs \<and>
            out = ''@layer globals {'' @ [CHR 0x0A] @ ''  :root {'' @ [CHR 0x0A] @
                  concat kbs @ concat nbs @ concat obs @ rest"
      by (intro conjI k(2) nb n(3) eq')
    then show "\<exists>kbs nbs obs rest.
            list_all2 ?E knownColorOrder kbs \<and>
            list_all2
              (\<lambda>g b. \<exists>ss.
                 sort_js (\<lambda>x y. sortVariables lc (fst x) (fst y) g)
                   (filter (\<lambda>e. color_match (fst e) = Some g) (primitives p)) = Inr ss \<and>
                 mset ss = mset (filter (\<lambda>e. color_match (fst e) = Some g) (primitives p)) \<and>
                 ss \<noteq> [] \<and>
                 b = concat (map (\<lambda>e. decl_line ''    '' (fst e) (val_to_string (snd e))) ss) @
                     [CHR 0x0A])
              ?new nbs \<and>
            list_all2 ?E otherGroupsOrder obs \<and>
            out = ''@layer globals {'' @ [CHR 0x0A] @ ''  :root {'' @ [CHR 0x0A] @
                  concat kbs @ concat nbs @ concat obs @ rest"
      by - ((rule exI)+, assumption)
  qed
qed

lemma color_css_run: "processVariables (parseVariables color_css) color_css = Inr color_tables"
  by code_simp

lemma color_tables_output:
  "generateOutput (\<lambda>a b. 0) color_tables =
   Inr ''@layer globals {\<newline>  :root {\<newline>    --color-default-50: #fafafa;\<newline>\<newline>    --color-accent-500: #333333;\<newline>\<newline>    --color-brand-100: #444444;\<newline>    --color-brand-500: #222222;\<newline>\<newline>    --color-zeta-500: #111111;\<newline>\<newline>    --spacing-1: 4px;\<newline>\<newline>  }\<newline>}\<newline>''"
  by code_simp

lemma color_tables_new:
  "newColorGroups (obj_keys (primitives color_tables)) = [''color-brand'', ''color-zeta'']"
  by code_simp

theorem new_color_groups_between_witness:
  "processVariables (parseVariables color_css) color_css = Inr color_tables \<and>
   generateOutput (\<lambda>a b. 0) color_tables =
     Inr ''@layer globals {\<newline>  :root {\<newline>    --color-default-50: #fafafa;\<newline>\<newline>    --color-accent-500: #333333;\<newline>\<newline>    --color-brand-100: #444444;\<newline>    --color-brand-500: #222222;\<newline>\<newline>    --color-zeta-500: #111111;\<newline>\<newline>    --spacing-1: 4px;\<newline>\<newline>  }\<newline>}\<newline>'' \<and>
   newColorGroups (obj_keys (primitives color_tables)) = [''color-brand'', ''color-zeta''] \<and>
   sorted (newColorGroups (obj_keys (primitives color_tables))) \<and>
   (\<exists>kbs nbs obs rest.
      list_all2 (\<lambda>g b. emit_group (\<lambda>a b. 0) (group_primitives (primitives color_tables)) g [] = Inr b)
        knownColorOrder kbs \<and>
      list_all2
        (\<lambda>g b. \<exists>ss.
           sort_js (\<lambda>x y. sortVariables (\<lambda>a b. 0) (fst x) (fst y) g)
             (filter (\<lambda>e. color_match (fst e) = Some g) (primitives color_tables)) = Inr ss \<and>
           mset ss = mset (filter (\<lambda>e. color_match (fst e) = Some g) (primitives color_tables)) \<and>
           ss \<noteq> [] \<and>
           b = concat (map (\<lambda>e. decl_line ''    '' (fst e) (val_to_string (snd e))) ss) @
               [CHR 0x0A])
        (newColorGroups (obj_keys (primitives color_tables))) nbs \<and>
      list_all2 (\<lambda>g b. emit_group (\<lambda>a b. 0) (group_primitives (primitives color_tables)) g [] = Inr b)
        otherGroupsOrder obs \<and>
      ''@layer globals {\<newline>  :root {\<newline>    --color-default-50: #fafafa;\<newline>\<newline>    --color-accent-500: #333333;\<newline>\<newline>    --color-brand-100: #444444;\<newline>    --color-brand-500: #222222;\<newline>\<newline>    --color-zeta-500: #111111;\<newline>\<newline>    --spacing-1: 4px;\<newline>\<newline>  }\<newline>}\<newline>'' =
        ''@layer globals {'' @ [CHR 0x0A] @ ''  :root {'' @ [CHR 0x0A] @
        concat kbs @ concat nbs @ concat obs @ rest)"
proof -
  note t = new_color_groups_between [OF color_tables_output]
  from t have s: "sorted (newColorGroups (obj_keys (primitives color_tables)))"
    by (elim conjE)
  from t have e: "(\<exists>kbs nbs obs rest.
      list_all2 (\<lambda>g b. emit_group (\<lambda>a b. 0) (group_primitives (primitives color_tables)) g [] = Inr b)
        knownColorOrder kbs \<and>
      list_all2
        (\<lambda>g b. \<exists>ss.
           sort_js (\<lambda>x y. sortVariables (\<lambda>a b. 0) (fst x) (fst y) g)
             (filter (\<lambda>e. color_match (fst e) = Some g) (primitives color_tables)) = Inr ss \<and>
           mset ss = mset (filter (\<lambda>e. color_match (fst e) = Some g) (primitives color_tables)) \<and>
           ss \<noteq> [] \<and>
           b = concat (map (\<lambda>e. decl_line ''    '' (fst e) (val_to_string (snd e))) ss) @
               [CHR 0x0A])
        (newColorGroups (obj_keys (primitives color_tables))) nbs \<and>
      list_all2 (\<lambda>g b. emit_group (\<lambda>a b. 0) (group_primitives (primitives color_tables)) g [] = Inr b)
        otherGroupsOrder obs \<and>
      ''@layer globals {\<newline>  :root {\<newline>    --color-default-50: #fafafa;\<newline>\<newline>    --color-accent-500: #333333;\<newline>\<newline>    --color-brand-100: #444444;\<newline>    --color-brand-500: #222222;\<newline>\<newline>    --color-zeta-500: #111111;\<newline>\<newline>    --spacing-1: 4px;\<newline>\<newline>  }\<newline>}\<newline>'' =
        ''@layer globals {'' @ [CHR 0x0A] @ ''  :root {'' @ [CHR 0x0A] @
        concat kbs @ concat nbs @ concat obs @ rest)"
    by (elim conjE)
  show ?thesis
    by (intro conjI) (rule color_css_run color_tables_output color_tables_new s e)+
qed

end
